theory Spec2Isabelle
  imports Main "HOL-Library.AList"
begin

section \<open>Python values and string operations\<close>

text \<open>
  The settings dictionary of an application holds values of several Python types: the
  loader stores \<^verbatim>\<open>None\<close>, strings, booleans and integers in it.
\<close>

datatype pyval = PNone | PStr string | PBool bool | PInt int

datatype py_exn = KeyError string | AttributeError | TypeError | ScheduleValueError

text \<open>Truth value of a Python object, as \<^verbatim>\<open>if x:\<close> tests it.\<close>

fun truthy :: "pyval \<Rightarrow> bool" where
  "truthy PNone = False"
| "truthy (PStr s) = (s \<noteq> [])"
| "truthy (PBool b) = b"
| "truthy (PInt n) = (n \<noteq> 0)"

text \<open>
  A string is a list of characters with codes below 256. \<^verbatim>\<open>str.lower()\<close> maps the
  letters \<open>A\<close>..\<open>Z\<close> and the upper-case letters of the codes 192 to 222 (but 215, the
  multiplication sign) to the character 32 codes further; every other character is kept.
\<close>

definition upper_chars :: "char list" where
  "upper_chars =
     ''ABCDEFGHIJKLMNOPQRSTUVWXYZ'' @
     [CHR 0xC0, CHR 0xC1, CHR 0xC2, CHR 0xC3, CHR 0xC4, CHR 0xC5, CHR 0xC6, CHR 0xC7,
      CHR 0xC8, CHR 0xC9, CHR 0xCA, CHR 0xCB, CHR 0xCC, CHR 0xCD, CHR 0xCE, CHR 0xCF,
      CHR 0xD0, CHR 0xD1, CHR 0xD2, CHR 0xD3, CHR 0xD4, CHR 0xD5, CHR 0xD6,
      CHR 0xD8, CHR 0xD9, CHR 0xDA, CHR 0xDB, CHR 0xDC, CHR 0xDD, CHR 0xDE]"

definition lower_chars :: "char list" where
  "lower_chars =
     ''abcdefghijklmnopqrstuvwxyz'' @
     [CHR 0xE0, CHR 0xE1, CHR 0xE2, CHR 0xE3, CHR 0xE4, CHR 0xE5, CHR 0xE6, CHR 0xE7,
      CHR 0xE8, CHR 0xE9, CHR 0xEA, CHR 0xEB, CHR 0xEC, CHR 0xED, CHR 0xEE, CHR 0xEF,
      CHR 0xF0, CHR 0xF1, CHR 0xF2, CHR 0xF3, CHR 0xF4, CHR 0xF5, CHR 0xF6,
      CHR 0xF8, CHR 0xF9, CHR 0xFA, CHR 0xFB, CHR 0xFC, CHR 0xFD, CHR 0xFE]"

definition lower_char :: "char \<Rightarrow> char" where
  "lower_char c =
     (case map_of (zip upper_chars lower_chars) c of
        Some d \<Rightarrow> d
      | None \<Rightarrow> c)"

definition lower :: "string \<Rightarrow> string" where
  "lower s = map lower_char s"

text \<open>\<^verbatim>\<open>s.endswith(suf)\<close>.\<close>

definition endswith :: "string \<Rightarrow> string \<Rightarrow> bool" where
  "endswith s suf = (length suf \<le> length s \<and> drop (length s - length suf) s = suf)"

text \<open>\<^verbatim>\<open>s.startswith(pre)\<close> and the substring test \<^verbatim>\<open>sub in s\<close>.\<close>

fun startswith :: "string \<Rightarrow> string \<Rightarrow> bool" where
  "startswith s [] = True"
| "startswith [] (p # ps) = False"
| "startswith (c # cs) (p # ps) = (c = p \<and> startswith cs ps)"

fun contains :: "string \<Rightarrow> string \<Rightarrow> bool" where
  "contains [] sub = (sub = [])"
| "contains (c # cs) sub = (startswith (c # cs) sub \<or> contains cs sub)"

text \<open>
  \<^verbatim>\<open>s.split()\<close> with no argument: the maximal runs of non-whitespace characters. The
  whitespace characters below 256 are the codes 9 to 13, 28 to 32, 133 and 160.
\<close>

definition is_space :: "char \<Rightarrow> bool" where
  "is_space c =
     (c \<in> set [CHR 0x09, CHR 0x0A, CHR 0x0B, CHR 0x0C, CHR 0x0D,
                CHR 0x1C, CHR 0x1D, CHR 0x1E, CHR 0x1F, CHR 0x20, CHR 0x85, CHR 0xA0])"

fun split_acc :: "string \<Rightarrow> string \<Rightarrow> string list" where
  "split_acc cur [] = (if cur = [] then [] else [rev cur])"
| "split_acc cur (c # cs) =
     (if is_space c then (if cur = [] then split_acc [] cs else rev cur # split_acc [] cs)
      else split_acc (c # cur) cs)"

definition split :: "string \<Rightarrow> string list" where
  "split s = split_acc [] s"

section \<open>Processes\<close>

text \<open>
  A \<^verbatim>\<open>QProcess\<close> object. \<^verbatim>\<open>start\<close> hands the operating system the program, the
  arguments, the working directory, the environment and the channel mode the object has
  at the moment of the call; that snapshot is kept in \<open>launched\<close>. What is set on the
  object afterwards is used by the next \<^verbatim>\<open>start\<close> only.
\<close>

datatype channel_mode = SeparateChannels | MergedChannels

datatype process_state = QNotRunning | QStarting | QRunning

datatype launch_cmd = ProgramArgs string "string list" | CommandLine string

record launch =
  l_cmd :: launch_cmd
  l_cwd :: string
  l_env :: "(string \<times> string) list"
  l_mode :: channel_mode

record qprocess =
  working_directory :: string
  environment :: "(string \<times> string) list"
  mode :: channel_mode
  launched :: "launch option"
  pstate :: process_state
  terminate_sent :: bool
  kill_sent :: bool

definition QProcess :: qprocess where
  "QProcess = \<lparr>working_directory = [], environment = [], mode = SeparateChannels,
     launched = None, pstate = QNotRunning, terminate_sent = False, kill_sent = False\<rparr>"

text \<open>
  The operating system is a parameter: \<open>os l\<close> is its answer to the launch \<open>l\<close>. The
  process is spawned, or the launch is refused; \<^verbatim>\<open>QProcess\<close> learns of a refusal either
  inside \<^verbatim>\<open>start\<close>, which then leaves the object in the state \<^verbatim>\<open>NotRunning\<close>, or
  after \<^verbatim>\<open>start\<close> has returned, the object being in the state \<^verbatim>\<open>Starting\<close> until
  the failure is reported. Which of the two happens depends on the platform.
  \<^verbatim>\<open>QProcess.start\<close> returns nothing and raises nothing.
\<close>

datatype spawn_answer = Spawned | FailedAtOnce | FailedLater

type_synonym os = "launch \<Rightarrow> spawn_answer"

definition qstart :: "os \<Rightarrow> launch_cmd \<Rightarrow> qprocess \<Rightarrow> qprocess" where
  "qstart os cmd p =
     (if pstate p \<noteq> QNotRunning then p
      else let l = \<lparr>l_cmd = cmd, l_cwd = working_directory p, l_env = environment p,
                     l_mode = mode p\<rparr>
           in p\<lparr>launched := Some l,
                pstate := (if os l = FailedAtOnce then QNotRunning else QStarting)\<rparr>)"

definition terminate :: "qprocess \<Rightarrow> qprocess" where
  "terminate p = p\<lparr>terminate_sent := True\<rparr>"

definition kill :: "qprocess \<Rightarrow> qprocess" where
  "kill p = p\<lparr>kill_sent := True\<rparr>"

section \<open>The application manager\<close>

type_synonym settings = "(string \<times> pyval) list"

record app_info =
  ai_name :: string
  ai_path :: string
  settings_path :: string
  settings :: settings

text \<open>
  Tasks handed to \<^verbatim>\<open>QTimer.singleShot\<close>, with their delay in milliseconds, and the
  calls made on the two hooks that the main window overrides.
\<close>

datatype task =
    CheckProcessTerminated string nat
  | EnsureProcessKilled string nat
  | ScheduledAppRunMainThread string
  | StartAndShowApp string
  | NotifyAppStarted string bool
  | ScheduledAppRun string

datatype notification =
    AppStarted string bool
  | TerminalUpdatedForScheduledRun string "string option"

datatype time_unit = Seconds | Minutes | Hours | Days | Weeks

datatype job_func = DoScheduledAppRun | DoCheckMonthlySchedule

record job =
  interval :: int
  unit :: time_unit
  at_time :: "string option"
  job_func :: job_func
  job_app :: string

text \<open>
  \<open>apps\<close>, \<open>processes\<close>, \<open>schedules\<close> and \<open>last_schedule_time\<close> are the attributes of
  \<^verbatim>\<open>AppManager\<close>. A process object is shared between the registry and the closures given
  to the timers, so the objects live in \<open>heap\<close> and \<open>processes\<close> maps a name to the index
  of its object. \<open>timers\<close> holds the pending single-shot timers in the order they were
  set, \<open>sink\<close> the calls received by the hooks, \<open>jobs\<close> the job list of the
  \<^verbatim>\<open>schedule\<close> module.
\<close>

record manager =
  apps :: "(string \<times> app_info) list"
  processes :: "string \<rightharpoonup> nat"
  schedules :: "(string \<times> job) list"
  last_schedule_time :: "string option"
  heap :: "qprocess list"
  timers :: "(nat \<times> task) list"
  sink :: "notification list"
  jobs :: "job list"

definition single_shot :: "nat \<Rightarrow> task \<Rightarrow> manager \<Rightarrow> manager" where
  "single_shot ms t s = s\<lparr>timers := timers s @ [(ms, t)]\<rparr>"

subsection \<open>\<^verbatim>\<open>start_app\<close>\<close>

text \<open>
  \<^verbatim>\<open>start_app\<close> returns \<^verbatim>\<open>True\<close> on one path and \<^verbatim>\<open>False\<close> on three, which differ in
  the message they print: no command specified, already running, not found in the app
  list. The outcome keeps the path; \<open>ok\<close> is the returned boolean.
\<close>

datatype start_outcome = Started | NoCommand | AlreadyRunning | NotFound

definition ok :: "start_outcome \<Rightarrow> bool" where
  "ok r = (r = Started)"

text \<open>
  The launch a command line is turned into (the three-way branch of \<^verbatim>\<open>start_app\<close>).
  In the branch of a Python command \<^verbatim>\<open>parts[0]\<close> would raise on an empty list; the list
  is never empty there (lemma \<open>python_command_has_program\<close>), and that case is given the
  value of the last branch.
\<close>

definition is_batch_file :: "string \<Rightarrow> bool" where
  "is_batch_file command = (endswith (lower command) ''.bat'' \<or> endswith (lower command) ''.cmd'')"

definition is_python_script :: "string \<Rightarrow> bool" where
  "is_python_script command = (contains (lower command) ''python'' \<or> endswith (lower command) ''.py'')"

definition launch_of :: "string \<Rightarrow> launch_cmd" where
  "launch_of command =
     (if is_batch_file command then ProgramArgs ''cmd.exe'' [''/c'', command]
      else if is_python_script command then
        (case split command of
           [] \<Rightarrow> CommandLine command
         | program # args \<Rightarrow>
             if endswith (lower program) ''python.exe'' \<or> lower program = ''python'' then
               (if ''-u'' \<notin> set args \<and> \<not> contains command ''-u''
                then ProgramArgs program (''-u'' # args)
                else ProgramArgs program args)
             else if endswith (lower program) ''.py'' then
               ProgramArgs ''python'' ([''-u'', program] @ args)
             else ProgramArgs program (''-u'' # args))
      else
        (case split command of
           program # arg # args \<Rightarrow> ProgramArgs program (arg # args)
         | _ \<Rightarrow> CommandLine command))"

text \<open>
  The body of \<^verbatim>\<open>start_app\<close>. The new process object is a local value until it is stored
  in the registry. A missing key raises \<^verbatim>\<open>KeyError\<close>; a value that is true but is no
  string raises at the first string operation on it.
\<close>

definition start_app :: "os \<Rightarrow> manager \<Rightarrow> string \<Rightarrow> py_exn + (start_outcome \<times> manager)" where
  "start_app os s app_name =
     (case map_of (apps s) app_name of
        Some app_info \<Rightarrow>
          (if app_name \<notin> dom (processes s) then
             (case map_of (settings app_info) ''path'' of
                None \<Rightarrow> Inl (KeyError ''path'')
              | Some path \<Rightarrow>
                  if truthy path \<and> (case path of PStr _ \<Rightarrow> False | _ \<Rightarrow> True) then Inl TypeError
                  else
                    let process = (case path of
                                     PStr d \<Rightarrow> if d \<noteq> [] then QProcess\<lparr>working_directory := d\<rparr>
                                               else QProcess
                                   | _ \<Rightarrow> QProcess)
                    in (case map_of (settings app_info) ''command'' of
                          None \<Rightarrow> Inl (KeyError ''command'')
                        | Some c \<Rightarrow>
                            if truthy c then
                              (case c of
                                 PStr command \<Rightarrow>
                                   let process = qstart os (launch_of command) process;
                                       h = length (heap s);
                                       process = process\<lparr>mode := MergedChannels\<rparr>;
                                       process = process\<lparr>environment :=
                                         AList.update ''PYTHONUNBUFFERED'' ''1'' (environment process)\<rparr>
                                   in Inr (Started,
                                        s\<lparr>processes := (processes s)(app_name \<mapsto> h),
                                          heap := heap s @ [process]\<rparr>)
                               | _ \<Rightarrow> Inl AttributeError)
                            else Inr (NoCommand, s)))
           else Inr (AlreadyRunning, s))
      | None \<Rightarrow>
          (if app_name \<in> dom (processes s) then Inr (AlreadyRunning, s)
           else Inr (NotFound, s)))"

subsection \<open>\<^verbatim>\<open>stop_app\<close> and \<^verbatim>\<open>is_app_running\<close>\<close>

datatype stop_outcome = Stopped | NotRunning

definition stop_app :: "manager \<Rightarrow> string \<Rightarrow> stop_outcome \<times> manager" where
  "stop_app s app_name =
     (case processes s app_name of
        Some h \<Rightarrow>
          let s = s\<lparr>heap := (heap s)[h := terminate (heap s ! h)]\<rparr>;
              s = single_shot 500 (CheckProcessTerminated app_name h) s;
              s = s\<lparr>processes := (processes s)(app_name := None)\<rparr>
          in (Stopped, s)
      | None \<Rightarrow> (NotRunning, s))"

definition is_app_running :: "manager \<Rightarrow> string \<Rightarrow> bool" where
  "is_app_running s app_name = (app_name \<in> dom (processes s))"

definition check_process_terminated :: "manager \<Rightarrow> string \<Rightarrow> nat \<Rightarrow> manager" where
  "check_process_terminated s app_name h =
     (if pstate (heap s ! h) \<noteq> QNotRunning then
        single_shot 500 (EnsureProcessKilled app_name h)
          (s\<lparr>heap := (heap s)[h := kill (heap s ! h)]\<rparr>)
      else s)"

subsection \<open>Loaded definitions\<close>

text \<open>The dictionary \<^verbatim>\<open>load_settings\<close> starts from.\<close>

definition default_settings :: settings where
  "default_settings =
     [(''path'', PStr ''''), (''command'', PStr ''''), (''url'', PStr ''''),
      (''autorun'', PBool False), (''schedule_enabled'', PBool False),
      (''schedule_type'', PStr ''Interval''), (''interval_value'', PInt 60),
      (''interval_unit'', PStr ''Minutes''), (''schedule_time'', PStr ''12:00''),
      (''display_name'', PStr ''''), (''short_name'', PStr ''''), (''group'', PStr '''')]"

text \<open>
  What \<^verbatim>\<open>start_app\<close> relies on in the settings of a definition: the keys \<open>path\<close> and
  \<open>command\<close> are present and hold a string or \<^verbatim>\<open>None\<close>. Every dictionary that
  \<^verbatim>\<open>load_settings\<close> returns is such (lemma \<open>load_settings_loaded\<close>).
\<close>

fun str_or_none :: "pyval \<Rightarrow> bool" where
  "str_or_none PNone = True"
| "str_or_none (PStr s) = True"
| "str_or_none (PBool b) = False"
| "str_or_none (PInt n) = False"

definition loaded :: "settings \<Rightarrow> bool" where
  "loaded st =
     ((case map_of st ''path'' of Some v \<Rightarrow> str_or_none v | None \<Rightarrow> False) \<and>
      (case map_of st ''command'' of Some v \<Rightarrow> str_or_none v | None \<Rightarrow> False))"

text \<open>Every live entry of the registry belongs to a definition.\<close>

definition registry_inv :: "manager \<Rightarrow> bool" where
  "registry_inv s = (dom (processes s) \<subseteq> fst ` set (apps s))"

subsection \<open>Example states\<close>

definition demo_app :: "string \<Rightarrow> app_info" where
  "demo_app c =
     \<lparr>ai_name = ''demo'', ai_path = ''apps/demo'', settings_path = ''apps/demo/settings.xml'',
      settings = AList.update ''command'' (PStr c) default_settings\<rparr>"

definition demo_idle :: "string \<Rightarrow> manager" where
  "demo_idle c =
     \<lparr>apps = [(''demo'', demo_app c)], processes = Map.empty, schedules = [],
      last_schedule_time = None, heap = [], timers = [], sink = [], jobs = []\<rparr>"

definition demo_running :: "string \<Rightarrow> manager" where
  "demo_running c =
     \<lparr>apps = [(''demo'', demo_app c)], processes = [''demo'' \<mapsto> 0], schedules = [],
      last_schedule_time = None, heap = [QProcess\<lparr>pstate := QRunning\<rparr>], timers = [],
      sink = [], jobs = []\<rparr>"

definition os_accepts :: os where
  "os_accepts l = Spawned"

definition os_refuses :: os where
  "os_refuses l = FailedLater"

section \<open>The schedule engine\<close>

subsection \<open>\<^verbatim>\<open>setup_schedules\<close>\<close>

text \<open>\<^verbatim>\<open>settings.get(key, default)\<close>.\<close>

definition get_default :: "settings \<Rightarrow> string \<Rightarrow> pyval \<Rightarrow> pyval" where
  "get_default st k d = (case map_of st k of Some v \<Rightarrow> v | None \<Rightarrow> d)"

text \<open>
  A value used as a number: an integer, or a boolean (a Python \<^verbatim>\<open>bool\<close> is an
  \<^verbatim>\<open>int\<close>). Comparing any other value with \<open>1\<close>, or building a time span from it,
  raises \<^verbatim>\<open>TypeError\<close>.
\<close>

fun as_int :: "pyval \<Rightarrow> int option" where
  "as_int (PInt n) = Some n"
| "as_int (PBool b) = Some (if b then 1 else 0)"
| "as_int PNone = None"
| "as_int (PStr s) = None"

text \<open>
  The \<^verbatim>\<open>schedule\<close> module is not part of the repository. The loop of
  \<^verbatim>\<open>setup_schedules\<close> makes one of two calls on it: \<^verbatim>\<open>every(n).<unit>.do(f, app_name)\<close>
  or \<^verbatim>\<open>every().<unit>.at(t).do(f, app_name)\<close>.
\<close>

datatype schedule_call =
    Every pyval time_unit job_func string
  | EveryAt time_unit pyval job_func string

text \<open>
  The body of the loop of \<^verbatim>\<open>setup_schedules\<close> for one application, up to the call on
  the module: the call that is made, if any. Only the branch for seconds compares the
  interval value with 1.
\<close>

definition schedule_call :: "string \<Rightarrow> settings \<Rightarrow> py_exn + schedule_call option" where
  "schedule_call app_name st =
     (if truthy (get_default st ''schedule_enabled'' (PBool False)) then
        let schedule_type = get_default st ''schedule_type'' (PStr ''Interval'') in
        if schedule_type = PStr ''Interval'' then
          let interval_value = get_default st ''interval_value'' (PInt 60);
              interval_unit = get_default st ''interval_unit'' (PStr ''Minutes'')
          in if interval_unit = PStr ''Seconds'' then
               (case as_int interval_value of
                  None \<Rightarrow> Inl TypeError
                | Some n \<Rightarrow>
                    let interval_value = (if n < 1 then PInt 1 else interval_value)
                    in Inr (Some (Every interval_value Seconds DoScheduledAppRun app_name)))
             else if interval_unit = PStr ''Minutes'' then
               Inr (Some (Every interval_value Minutes DoScheduledAppRun app_name))
             else if interval_unit = PStr ''Hours'' then
               Inr (Some (Every interval_value Hours DoScheduledAppRun app_name))
             else Inr None
        else if schedule_type = PStr ''Daily'' then
          Inr (Some (EveryAt Days (get_default st ''schedule_time'' (PStr ''12:00''))
                 DoScheduledAppRun app_name))
        else if schedule_type = PStr ''Weekly'' then
          Inr (Some (EveryAt Weeks (get_default st ''schedule_time'' (PStr ''12:00''))
                 DoScheduledAppRun app_name))
        else if schedule_type = PStr ''Monthly'' then
          Inr (Some (EveryAt Days (get_default st ''schedule_time'' (PStr ''12:00''))
                 DoCheckMonthlySchedule app_name))
        else Inr None
      else Inr None)"

text \<open>
  What the module does with a call. A call may raise, and it may never return; in both
  cases \<^verbatim>\<open>setup_schedules\<close> does not come to its end.

  \<^verbatim>\<open>every(n).<unit>.do(f)\<close> raises \<^verbatim>\<open>TypeError\<close> when \<open>n\<close> is no number and makes a job
  of interval \<open>n\<close> when \<open>n\<close> is at least 1. For an interval below 1 the releases of the
  module differ (a job of that interval, a call that never returns, an exception): what
  happens is the parameter \<open>small\<close>, with \<open>None\<close> for a job of interval \<open>n\<close>.

  \<^verbatim>\<open>every().<unit>.at(t).do(f)\<close> makes a job of interval 1 when the module accepts the
  time string \<open>t\<close> for the unit and raises otherwise. Which time strings it accepts for
  which unit is the parameter \<open>at_ok\<close>.
\<close>

datatype abort = Raised py_exn | NeverReturns

type_synonym small = "int \<Rightarrow> time_unit \<Rightarrow> abort option"

type_synonym at_ok = "time_unit \<Rightarrow> string \<Rightarrow> bool"

definition every_do :: "small \<Rightarrow> pyval \<Rightarrow> time_unit \<Rightarrow> job_func \<Rightarrow> string \<Rightarrow> abort + job" where
  "every_do small n u f app_name =
     (case as_int n of
        None \<Rightarrow> Inl (Raised TypeError)
      | Some i \<Rightarrow>
          if 1 \<le> i then
            Inr \<lparr>interval = i, unit = u, at_time = None, job_func = f, job_app = app_name\<rparr>
          else
            (case small i u of
               None \<Rightarrow>
                 Inr \<lparr>interval = i, unit = u, at_time = None, job_func = f, job_app = app_name\<rparr>
             | Some a \<Rightarrow> Inl a))"

definition every_at_do :: "at_ok \<Rightarrow> time_unit \<Rightarrow> pyval \<Rightarrow> job_func \<Rightarrow> string \<Rightarrow> abort + job" where
  "every_at_do at_ok u t f app_name =
     (case t of
        PStr time_str \<Rightarrow>
          if at_ok u time_str
          then Inr \<lparr>interval = 1, unit = u, at_time = Some time_str, job_func = f,
                    job_app = app_name\<rparr>
          else Inl (Raised ScheduleValueError)
      | _ \<Rightarrow> Inl (Raised TypeError))"

definition perform :: "small \<Rightarrow> at_ok \<Rightarrow> schedule_call \<Rightarrow> abort + job" where
  "perform small at_ok c =
     (case c of
        Every n u f app_name \<Rightarrow> every_do small n u f app_name
      | EveryAt u t f app_name \<Rightarrow> every_at_do at_ok u t f app_name)"

text \<open>
  The body of the loop of \<^verbatim>\<open>setup_schedules\<close> for one application: the job stored in
  \<^verbatim>\<open>self.schedules[app_name]\<close>, if any.
\<close>

definition schedule_for :: "small \<Rightarrow> at_ok \<Rightarrow> string \<Rightarrow> settings \<Rightarrow> abort + job option" where
  "schedule_for small at_ok app_name st =
     (case schedule_call app_name st of
        Inl e \<Rightarrow> Inl (Raised e)
      | Inr None \<Rightarrow> Inr None
      | Inr (Some c) \<Rightarrow> map_sum id Some (perform small at_ok c))"

text \<open>
  The loop over \<^verbatim>\<open>self.apps.items()\<close>. An exception leaves the loop; what was stored
  before stays.
\<close>

fun setup_loop ::
    "small \<Rightarrow> at_ok \<Rightarrow> (string \<times> app_info) list \<Rightarrow> manager \<Rightarrow> abort option \<times> manager" where
  "setup_loop small at_ok [] s = (None, s)"
| "setup_loop small at_ok ((app_name, app_info) # rest) s =
     (case schedule_for small at_ok app_name (settings app_info) of
        Inl e \<Rightarrow> (Some e, s)
      | Inr None \<Rightarrow> setup_loop small at_ok rest s
      | Inr (Some j) \<Rightarrow>
          setup_loop small at_ok rest
            (s\<lparr>schedules := AList.update app_name j (schedules s), jobs := jobs s @ [j]\<rparr>))"

definition setup_schedules :: "small \<Rightarrow> at_ok \<Rightarrow> manager \<Rightarrow> abort option \<times> manager" where
  "setup_schedules small at_ok s =
     setup_loop small at_ok (apps s) (s\<lparr>jobs := [], schedules := []\<rparr>)"

subsection \<open>Firing\<close>

text \<open>
  \<^verbatim>\<open>datetime.now()\<close>: the day of the month and the time of day as \<^verbatim>\<open>%H:%M:%S\<close>.
  \<^verbatim>\<open>QApplication.processEvents()\<close> lets the event loop run whatever is pending; what
  that does to the state is the parameter \<open>pe\<close>.
\<close>

record clock =
  day :: nat
  hms :: string

type_synonym process_events = "manager \<Rightarrow> manager"

definition scheduled_app_run :: "process_events \<Rightarrow> clock \<Rightarrow> manager \<Rightarrow> string \<Rightarrow> bool \<times> manager" where
  "scheduled_app_run pe now s app_name =
     (let s = s\<lparr>last_schedule_time := Some (hms now)\<rparr>;
          s = single_shot 0 (ScheduledAppRunMainThread app_name) s;
          s = pe s
      in (True, s))"

definition check_monthly_schedule :: "process_events \<Rightarrow> clock \<Rightarrow> manager \<Rightarrow> string \<Rightarrow> manager" where
  "check_monthly_schedule pe now s app_name =
     (if day now = 1 then snd (scheduled_app_run pe now s app_name) else s)"

text \<open>A job that is due calls the function it was given with the name it was given.\<close>

definition run_job :: "process_events \<Rightarrow> clock \<Rightarrow> job \<Rightarrow> manager \<Rightarrow> manager" where
  "run_job pe now j s =
     (case job_func j of
        DoScheduledAppRun \<Rightarrow> snd (scheduled_app_run pe now s (job_app j))
      | DoCheckMonthlySchedule \<Rightarrow> check_monthly_schedule pe now s (job_app j))"

text \<open>The two hooks, as the sink sees them.\<close>

definition update_terminal_for_scheduled_run :: "manager \<Rightarrow> string \<Rightarrow> string option \<Rightarrow> manager" where
  "update_terminal_for_scheduled_run s app_name timestamp =
     s\<lparr>sink := sink s @ [TerminalUpdatedForScheduledRun app_name timestamp]\<rparr>"

definition notify_app_started :: "manager \<Rightarrow> string \<Rightarrow> bool \<Rightarrow> manager" where
  "notify_app_started s app_name set_focus = s\<lparr>sink := sink s @ [AppStarted app_name set_focus]\<rparr>"

definition start_and_show_app :: "os \<Rightarrow> manager \<Rightarrow> string \<Rightarrow> py_exn + manager" where
  "start_and_show_app os s app_name =
     (case start_app os s app_name of
        Inl e \<Rightarrow> Inl e
      | Inr (r, s) \<Rightarrow>
          if ok r then Inr (single_shot 0 (NotifyAppStarted app_name False) s) else Inr s)"

definition scheduled_app_run_main_thread ::
    "process_events \<Rightarrow> os \<Rightarrow> manager \<Rightarrow> string \<Rightarrow> py_exn + manager" where
  "scheduled_app_run_main_thread pe os s app_name =
     (let timestamp = last_schedule_time s;
          s = update_terminal_for_scheduled_run s app_name timestamp;
          s = pe s
      in if is_app_running s app_name then
           let s = snd (stop_app s app_name);
               s = single_shot 1000 (StartAndShowApp app_name) s
           in Inr s
         else start_and_show_app os s app_name)"

text \<open>What a timer does when it fires.\<close>

definition ensure_process_killed :: "manager \<Rightarrow> string \<Rightarrow> nat \<Rightarrow> manager" where
  "ensure_process_killed s app_name h = s"

definition run_task :: "process_events \<Rightarrow> os \<Rightarrow> clock \<Rightarrow> task \<Rightarrow> manager \<Rightarrow> py_exn + manager" where
  "run_task pe os now t s =
     (case t of
        CheckProcessTerminated app_name h \<Rightarrow> Inr (check_process_terminated s app_name h)
      | EnsureProcessKilled app_name h \<Rightarrow> Inr (ensure_process_killed s app_name h)
      | ScheduledAppRunMainThread app_name \<Rightarrow> scheduled_app_run_main_thread pe os s app_name
      | StartAndShowApp app_name \<Rightarrow> start_and_show_app os s app_name
      | NotifyAppStarted app_name set_focus \<Rightarrow> Inr (notify_app_started s app_name set_focus)
      | ScheduledAppRun app_name \<Rightarrow> Inr (snd (scheduled_app_run pe now s app_name)))"

subsection \<open>Example schedules\<close>

definition demo_scheduled :: "settings \<Rightarrow> manager" where
  "demo_scheduled st =
     \<lparr>apps = [(''demo'', \<lparr>ai_name = ''demo'', ai_path = ''apps/demo'',
                 settings_path = ''apps/demo/settings.xml'', settings = st\<rparr>)],
      processes = Map.empty, schedules = [], last_schedule_time = None, heap = [],
      timers = [], sink = [], jobs = []\<rparr>"

definition every_minutes_0 :: settings where
  "every_minutes_0 =
     AList.update ''interval_value'' (PInt 0)
       (AList.update ''schedule_enabled'' (PBool True)
          (AList.update ''command'' (PStr ''ping localhost'') default_settings))"

definition every_seconds_0 :: settings where
  "every_seconds_0 = AList.update ''interval_unit'' (PStr ''Seconds'') every_minutes_0"

definition monthly_0900 :: settings where
  "monthly_0900 =
     AList.update ''schedule_time'' (PStr ''09:00'')
       (AList.update ''schedule_type'' (PStr ''Monthly'')
          (AList.update ''schedule_enabled'' (PBool True)
             (AList.update ''command'' (PStr ''ping localhost'') default_settings)))"

text \<open>
  A module that accepts the daily time \<open>09:00\<close> and makes a job for any interval.
\<close>

definition demo_at_ok :: at_ok where
  "demo_at_ok u t = (u = Days \<and> t = ''09:00'')"

definition demo_small :: small where
  "demo_small n u = None"

section \<open>Settings files\<close>

subsection \<open>\<^verbatim>\<open>str\<close> and \<^verbatim>\<open>int\<close>\<close>

definition digit_char :: "nat \<Rightarrow> char" where
  "digit_char d = ''0123456789'' ! d"

function digits_of :: "nat \<Rightarrow> string" where
  "digits_of n = (if n < 10 then [digit_char n] else digits_of (n div 10) @ [digit_char (n mod 10)])"
  by pat_completeness auto
termination
  by (relation "measure id") auto

declare digits_of.simps [simp del]

definition str_of_int :: "int \<Rightarrow> string" where
  "str_of_int i = (if i < 0 then CHR ''-'' # digits_of (nat (- i)) else digits_of (nat i))"

text \<open>\<^verbatim>\<open>str(value)\<close>.\<close>

fun py_str :: "pyval \<Rightarrow> string" where
  "py_str PNone = ''None''"
| "py_str (PStr s) = s"
| "py_str (PBool b) = (if b then ''True'' else ''False'')"
| "py_str (PInt n) = str_of_int n"

text \<open>
  \<^verbatim>\<open>int(s)\<close> for a string: white space around is dropped, a sign may come first, and the
  rest is decimal digits, where a single underscore may stand between two digits. Anything
  else raises \<^verbatim>\<open>ValueError\<close>, which is \<open>None\<close> here.
\<close>

definition digit_val :: "char \<Rightarrow> nat option" where
  "digit_val c = map_of (zip ''0123456789'' [0, 1, 2, 3, 4, 5, 6, 7, 8, 9]) c"

fun parse_digits :: "nat \<Rightarrow> string \<Rightarrow> nat option" where
  "parse_digits acc [] = Some acc"
| "parse_digits acc (c # cs) =
     (case digit_val c of
        Some v \<Rightarrow> parse_digits (10 * acc + v) cs
      | None \<Rightarrow>
          if c = CHR ''_'' then
            (case cs of
               [] \<Rightarrow> None
             | d # ds \<Rightarrow>
                 (case digit_val d of
                    Some v \<Rightarrow> parse_digits (10 * acc + v) ds
                  | None \<Rightarrow> None))
          else None)"

definition parse_nat :: "string \<Rightarrow> nat option" where
  "parse_nat s =
     (case s of
        [] \<Rightarrow> None
      | c # cs \<Rightarrow> (case digit_val c of Some v \<Rightarrow> parse_digits v cs | None \<Rightarrow> None))"

definition strip :: "string \<Rightarrow> string" where
  "strip s = dropWhile is_space (rev (dropWhile is_space (rev s)))"

definition int_of_str :: "string \<Rightarrow> int option" where
  "int_of_str s =
     (case strip s of
        [] \<Rightarrow> None
      | c # cs \<Rightarrow>
          if c = CHR ''-'' then map_option (\<lambda>n. - int n) (parse_nat cs)
          else if c = CHR ''+'' then map_option int (parse_nat cs)
          else map_option int (parse_nat (c # cs)))"

text \<open>\<^verbatim>\<open>int(value)\<close>; \<open>None\<close> when it raises \<^verbatim>\<open>ValueError\<close> or \<^verbatim>\<open>TypeError\<close>.\<close>

fun py_int :: "pyval \<Rightarrow> int option" where
  "py_int PNone = None"
| "py_int (PStr s) = int_of_str s"
| "py_int (PBool b) = Some (if b then 1 else 0)"
| "py_int (PInt n) = Some n"

subsection \<open>Documents\<close>

text \<open>
  A settings file as \<^verbatim>\<open>ElementTree\<close> reads it: the children of the root, each with
  its tag, its text (\<^verbatim>\<open>None\<close> for an element with no text) and, for its own children,
  the attributes \<open>name\<close> and \<open>value\<close> (\<^verbatim>\<open>None\<close> where the attribute is absent). A path
  holds a document, a file that does not parse, or nothing.
\<close>

datatype xml_elem = Elem (elem_tag: string) (elem_text: "string option")
  (elem_children: "(string option \<times> string option) list")

datatype settings_file = Missing | Malformed | Document "xml_elem list"

type_synonym files = "string \<Rightarrow> settings_file"

fun opt_str :: "string option \<Rightarrow> pyval" where
  "opt_str None = PNone"
| "opt_str (Some s) = PStr s"

subsection \<open>\<^verbatim>\<open>load_settings\<close>\<close>

text \<open>
  The loops over the elements. The boolean tells whether the loop came to its end: a
  \<^verbatim>\<open>param\<close> with no \<open>name\<close> raises at \<^verbatim>\<open>param_name.lower()\<close>, and the dictionary is
  then returned as it stands.
\<close>

fun load_params :: "(string option \<times> string option) list \<Rightarrow> settings \<Rightarrow> bool \<times> settings" where
  "load_params [] st = (True, st)"
| "load_params ((n, v) # ps) st =
     (case n of
        None \<Rightarrow> (False, st)
      | Some param_name \<Rightarrow>
          if lower param_name = ''url'' \<and>
             (case map_of st ''url'' of Some u \<Rightarrow> truthy u | None \<Rightarrow> False)
          then load_params ps st
          else load_params ps (AList.update param_name (opt_str v) st))"

fun load_elems :: "xml_elem list \<Rightarrow> settings \<Rightarrow> bool \<times> settings" where
  "load_elems [] st = (True, st)"
| "load_elems (e # es) st =
     (if elem_tag e = ''parameters'' then
        (case load_params (elem_children e) st of
           (True, st') \<Rightarrow> load_elems es st'
         | (False, st') \<Rightarrow> (False, st'))
      else load_elems es (AList.update (elem_tag e) (opt_str (elem_text e)) st))"

text \<open>The three conversions that follow the loops.\<close>

definition to_bool :: "pyval option \<Rightarrow> pyval" where
  "to_bool x =
     (case x of
        None \<Rightarrow> PBool False
      | Some PNone \<Rightarrow> PBool False
      | Some v \<Rightarrow> PBool (lower (py_str v) = ''true''))"

definition to_interval :: "pyval option \<Rightarrow> pyval" where
  "to_interval x =
     (case x of
        None \<Rightarrow> PInt 60
      | Some PNone \<Rightarrow> PInt 60
      | Some v \<Rightarrow> (case py_int v of Some n \<Rightarrow> PInt n | None \<Rightarrow> PInt 60))"

definition to_string :: "pyval option \<Rightarrow> pyval" where
  "to_string x =
     (case x of
        None \<Rightarrow> PStr []
      | Some PNone \<Rightarrow> PStr []
      | Some v \<Rightarrow> PStr (py_str v))"

definition bool_keys :: "string list" where
  "bool_keys = [''autorun'', ''schedule_enabled'']"

definition string_keys :: "string list" where
  "string_keys = [''path'', ''command'', ''url'', ''group'', ''short_name'', ''interval_unit'',
     ''schedule_type'', ''schedule_time'', ''display_name'']"

definition convert_key :: "(pyval option \<Rightarrow> pyval) \<Rightarrow> string \<Rightarrow> settings \<Rightarrow> settings" where
  "convert_key f k st = AList.update k (f (map_of st k)) st"

definition convert :: "settings \<Rightarrow> settings" where
  "convert st =
     fold (convert_key to_string) string_keys
       (convert_key to_interval ''interval_value''
          (fold (convert_key to_bool) bool_keys st))"

definition load_settings :: "settings_file \<Rightarrow> settings" where
  "load_settings f =
     (case f of
        Missing \<Rightarrow> default_settings
      | Malformed \<Rightarrow> default_settings
      | Document es \<Rightarrow>
          (case load_elems es default_settings of
             (True, st) \<Rightarrow> convert st
           | (False, st) \<Rightarrow> st))"

subsection \<open>\<^verbatim>\<open>save_settings\<close>\<close>

text \<open>
  \<^verbatim>\<open>save_settings\<close> makes one element for every key, with the text \<^verbatim>\<open>str(value)\<close>,
  turns the tree into a string (\<^verbatim>\<open>ElementTree\<close>), parses and prints that string again
  (\<^verbatim>\<open>minidom\<close>) and writes the result to the file. These libraries, the encoding of the
  file and its line ends are not part of the repository: what they make of the keys and
  texts is the parameter \<open>xml\<close>. Its answer is \<open>BuildRaises\<close> when a step up to the
  opening of the file raises, so that the file is not touched; \<open>WriteRaises f\<close> when the
  file was opened, and so emptied, and the writing raises, \<open>f\<close> being what is left at the
  path; and \<open>Written f\<close> when the file is written, \<open>f\<close> being the file as
  \<^verbatim>\<open>load_settings\<close> will read it. In the first two cases \<^verbatim>\<open>save_settings\<close> prints the
  exception and returns \<^verbatim>\<open>False\<close>.
\<close>

datatype save_answer = BuildRaises | WriteRaises settings_file | Written settings_file

type_synonym xml_chain = "(string \<times> string) list \<Rightarrow> save_answer"

definition elems_of :: "settings \<Rightarrow> (string \<times> string) list" where
  "elems_of st = map (\<lambda>kv. (fst kv, py_str (snd kv))) st"

definition save_settings ::
    "xml_chain \<Rightarrow> manager \<Rightarrow> files \<Rightarrow> string \<Rightarrow> settings \<Rightarrow> bool \<times> manager \<times> files" where
  "save_settings xml s fs app_name st =
     (case map_of (apps s) app_name of
        None \<Rightarrow> (False, s, fs)
      | Some app_info \<Rightarrow>
          (case xml (elems_of st) of
             BuildRaises \<Rightarrow> (False, s, fs)
           | WriteRaises f \<Rightarrow> (False, s, fs(settings_path app_info := f))
           | Written f \<Rightarrow>
               (True,
                s\<lparr>apps := AList.update app_name (app_info\<lparr>settings := st\<rparr>) (apps s)\<rparr>,
                fs(settings_path app_info := f))))"

text \<open>
  The element that is read back for a field when the libraries keep its key and its text;
  an element written with an empty text has no text when it is read. \<open>read_back\<close> is
  what the loops of \<^verbatim>\<open>load_settings\<close> then store for the field.
\<close>

definition written :: "string \<times> pyval \<Rightarrow> xml_elem" where
  "written kv =
     Elem (fst kv) (if py_str (snd kv) = [] then None else Some (py_str (snd kv))) []"

definition read_back :: "pyval \<Rightarrow> pyval" where
  "read_back v = opt_str (elem_text (written (''field'', v)))"

text \<open>The twelve keys of the dictionary \<^verbatim>\<open>load_settings\<close> starts from.\<close>

definition known_keys :: "string list" where
  "known_keys = bool_keys @ [''interval_value''] @ string_keys"

text \<open>
  A field outside the twelve keys that the round trip keeps: its value is a non-empty string
  and its key is not \<open>parameters\<close>.
\<close>

definition custom_kept :: "string \<times> pyval \<Rightarrow> bool" where
  "custom_kept kv =
     (fst kv \<in> set known_keys \<or>
      (fst kv \<noteq> ''parameters'' \<and> (case snd kv of PStr t \<Rightarrow> t \<noteq> [] | _ \<Rightarrow> False)))"

text \<open>The loops of \<^verbatim>\<open>load_settings\<close> come to their end on the file.\<close>

definition load_completes :: "settings_file \<Rightarrow> bool" where
  "load_completes f =
     (case f of Document es \<Rightarrow> fst (load_elems es default_settings) | _ \<Rightarrow> True)"

subsection \<open>Example files\<close>

definition notes_file :: settings_file where
  "notes_file = Document [Elem ''command'' (Some ''ping localhost'') [], Elem ''notes'' None []]"

definition token_file :: settings_file where
  "token_file =
     Document [Elem ''command'' (Some ''ping localhost'') [],
               Elem ''interval_value'' (Some ''-15'') [],
               Elem ''autorun'' (Some ''TRUE'') [],
               Elem ''parameters'' None [(Some ''token'', Some ''abc'')]]"

definition demo_files :: "settings_file \<Rightarrow> files" where
  "demo_files f p = (if p = ''apps/demo/settings.xml'' then f else Missing)"

text \<open>Libraries that keep every key and every text.\<close>

definition xml_faithful :: xml_chain where
  "xml_faithful kvs =
     Written (Document (map (\<lambda>kv. Elem (fst kv) (if snd kv = [] then None else Some (snd kv)) [])
                       kvs))"

section \<open>The process registry\<close>

lemmas demo_defs = demo_idle_def demo_running_def demo_app_def default_settings_def

lemmas launch_defs = launch_of_def is_batch_file_def is_python_script_def endswith_def lower_def
  lower_char_def upper_chars_def lower_chars_def split_def is_space_def

lemma demo_app_lookup:
  "map_of (settings (demo_app c)) ''command'' = Some (PStr c)"
  "map_of (settings (demo_app c)) ''path'' = Some (PStr [])"
  by (simp_all add: demo_app_def default_settings_def)

lemma demo_app_loaded: "loaded (settings (demo_app c))"
  by (simp add: loaded_def demo_app_lookup)

lemma demo_idle_simps:
  "map_of (apps (demo_idle c)) ''demo'' = Some (demo_app c)"
  "processes (demo_idle c) = Map.empty"
  "heap (demo_idle c) = []"
  by (simp_all add: demo_idle_def)

lemma demo_running_simps:
  "map_of (apps (demo_running c)) ''demo'' = Some (demo_app c)"
  "processes (demo_running c) = [''demo'' \<mapsto> 0]"
  "heap (demo_running c) = [QProcess\<lparr>pstate := QRunning\<rparr>]"
  by (simp_all add: demo_running_def)

lemma stop_app_running:
  "processes s name = Some h \<Longrightarrow>
     stop_app s name =
       (Stopped, s\<lparr>heap := (heap s)[h := terminate (heap s ! h)],
                   timers := timers s @ [(500, CheckProcessTerminated name h)],
                   processes := (processes s)(name := None)\<rparr>)"
  by (simp add: stop_app_def single_shot_def)

lemma stop_app_not_running:
  "processes s name = None \<Longrightarrow> stop_app s name = (NotRunning, s)"
  by (simp add: stop_app_def)

lemma pstate_terminate_update:
  "map pstate (hp[h := terminate (hp ! h)]) = map pstate hp"
proof (cases "h < length hp")
  case True
  have "map pstate (hp[h := terminate (hp ! h)]) = (map pstate hp)[h := pstate (hp ! h)]"
    by (simp add: map_update terminate_def)
  also have "\<dots> = (map pstate hp)[h := map pstate hp ! h]"
    using True by simp
  also have "\<dots> = map pstate hp"
    by (rule list_update_id)
  finally show ?thesis .
next
  case False
  then have "length hp \<le> h" by arith
  then show ?thesis by (simp add: list_update_beyond)
qed

text \<open>
  C1. When \<open>name\<close> has a live entry, \<^verbatim>\<open>stop_app\<close> reports success and has removed the entry
  when it returns, so \<^verbatim>\<open>is_app_running\<close> is false at once; nothing else leaves the
  registry, and the state of every process object is what it was (the process may still
  be running: only the termination request was sent). A second \<^verbatim>\<open>stop_app\<close> fails as
  not running and changes nothing.
\<close>

theorem stop_app_removes_entry:
  assumes "processes s name = Some h"
  shows "(case stop_app s name of
            (r, s') \<Rightarrow>
              r = Stopped \<and> \<not> is_app_running s' name \<and>
              processes s' = (processes s)(name := None) \<and>
              map pstate (heap s') = map pstate (heap s) \<and>
              stop_app s' name = (NotRunning, s'))"
  using assms
  by (simp add: stop_app_running stop_app_not_running is_app_running_def
      pstate_terminate_update)

theorem stop_app_removes_entry_witness:
  "processes (demo_running ''ping localhost'') ''demo'' = Some 0 \<and>
   (case stop_app (demo_running ''ping localhost'') ''demo'' of
      (r, s') \<Rightarrow>
        r = Stopped \<and> \<not> is_app_running s' ''demo'' \<and>
        processes s' = (processes (demo_running ''ping localhost''))(''demo'' := None) \<and>
        map pstate (heap s') = [QRunning] \<and>
        stop_app s' ''demo'' = (NotRunning, s'))"
proof -
  have live: "processes (demo_running ''ping localhost'') ''demo'' = Some 0"
    by (simp add: demo_running_def)
  have "map pstate (heap (demo_running ''ping localhost'')) = [QRunning]"
    by (simp add: demo_running_def QProcess_def)
  with live stop_app_removes_entry [OF live] show ?thesis
    by (simp add: case_prod_beta)
qed


subsection \<open>Starting\<close>

lemma split_acc_nonempty:
  "cur \<noteq> [] \<or> (\<exists>c\<in>set s. \<not> is_space c) \<Longrightarrow> split_acc cur s \<noteq> []"
  by (induction s arbitrary: cur) auto

lemma startswith_set: "startswith s sub \<Longrightarrow> set sub \<subseteq> set s"
  by (induction s sub rule: startswith.induct) auto

lemma contains_set: "contains s sub \<Longrightarrow> set sub \<subseteq> set s"
proof (induction s sub rule: contains.induct)
  case (1 sub)
  then show ?case by simp
next
  case (2 c cs sub)
  from "2.prems" consider "startswith (c # cs) sub" | "contains cs sub" by auto
  then show ?case
  proof cases
    case 1
    then show ?thesis by (rule startswith_set)
  next
    case 2
    with "2.IH" show ?thesis by auto
  qed
qed

lemma endswith_set: "endswith s sub \<Longrightarrow> set sub \<subseteq> set s"
proof -
  assume "endswith s sub"
  then have "sub = drop (length s - length sub) s" by (simp add: endswith_def)
  then have "set sub \<subseteq> set (drop (length s - length sub) s)" by simp
  also have "\<dots> \<subseteq> set s" by (rule set_drop_subset)
  finally show ?thesis .
qed

lemma lower_char_spaces:
  "\<forall>c \<in> set [CHR 0x09, CHR 0x0A, CHR 0x0B, CHR 0x0C, CHR 0x0D, CHR 0x1C, CHR 0x1D, CHR 0x1E,
             CHR 0x1F, CHR 0x20, CHR 0x85, CHR 0xA0]. lower_char c = c"
  by (simp add: lower_char_def upper_chars_def lower_chars_def)

lemma lower_char_space: "is_space c \<Longrightarrow> lower_char c = c"
  using lower_char_spaces by (simp only: is_space_def)

lemma lower_char_p: "lower_char c = CHR ''p'' \<Longrightarrow> \<not> is_space c"
proof
  assume p: "lower_char c = CHR ''p''" and sp: "is_space c"
  from sp have "lower_char c = c" by (rule lower_char_space)
  with p sp have "is_space (CHR ''p'')" by simp
  then show False by (simp add: is_space_def)
qed

text \<open>
  A command that passes the test for a Python command has a program: \<^verbatim>\<open>parts[0]\<close> never
  raises, and the first case of \<open>launch_of\<close> for a Python command is never taken.
\<close>

lemma python_command_has_program:
  assumes "is_python_script command"
  shows "split command \<noteq> []"
proof -
  from assms have "CHR ''p'' \<in> set (lower command)"
    by (auto simp: is_python_script_def dest: contains_set endswith_set)
  then obtain c where "c \<in> set command" "lower_char c = CHR ''p''"
    by (auto simp: lower_def)
  then have "\<exists>c\<in>set command. \<not> is_space c"
    using lower_char_p by blast
  then show ?thesis
    by (simp add: split_def split_acc_nonempty)
qed

lemma start_app_live:
  "name \<in> dom (processes s) \<Longrightarrow> start_app os s name = Inr (AlreadyRunning, s)"
  by (auto simp: start_app_def split: option.splits)

lemma start_app_unknown:
  "map_of (apps s) name = None \<Longrightarrow> name \<notin> dom (processes s) \<Longrightarrow>
     start_app os s name = Inr (NotFound, s)"
  by (simp add: start_app_def)

text \<open>
  A definition with a non-empty command and no live entry: \<^verbatim>\<open>start_app\<close> succeeds and
  stores a new process object, whose launch was made with the environment and the channel
  mode of a fresh object; the variable \<^verbatim>\<open>PYTHONUNBUFFERED\<close> and the merged mode are set
  on the object after the launch.
\<close>

lemma start_app_fresh:
  assumes app: "map_of (apps s) name = Some ai" and ld: "loaded (settings ai)"
    and cmd: "map_of (settings ai) ''command'' = Some (PStr c)" and ne: "c \<noteq> []"
    and idle: "name \<notin> dom (processes s)"
  shows "start_app os s name =
           Inr (Started,
             s\<lparr>processes := (processes s)(name \<mapsto> length (heap s)),
               heap := heap s @
                 [(let l = \<lparr>l_cmd = launch_of c,
                              l_cwd = (case map_of (settings ai) ''path'' of
                                         Some (PStr d) \<Rightarrow> d | _ \<Rightarrow> []),
                              l_env = [], l_mode = SeparateChannels\<rparr>
                   in \<lparr>working_directory = l_cwd l,
                       environment = [(''PYTHONUNBUFFERED'', ''1'')],
                       mode = MergedChannels, launched = Some l,
                       pstate = (if os l = FailedAtOnce then QNotRunning else QStarting),
                       terminate_sent = False, kill_sent = False\<rparr>)]\<rparr>)"
proof -
  from ld obtain p where p: "map_of (settings ai) ''path'' = Some p" and sp: "str_or_none p"
    by (auto simp: loaded_def split: option.splits)
  from sp consider "p = PNone" | d where "p = PStr d"
    by (cases p) auto
  then show ?thesis
  proof cases
    case 1
    with app cmd ne idle p show ?thesis
      by (simp add: start_app_def Let_def qstart_def QProcess_def)
  next
    case 2
    with app cmd ne idle p show ?thesis
      by (simp add: start_app_def Let_def qstart_def QProcess_def)
  qed
qed

lemma start_app_no_command:
  assumes app: "map_of (apps s) name = Some ai" and ld: "loaded (settings ai)"
    and cmd: "map_of (settings ai) ''command'' = Some (PStr [])"
    and idle: "name \<notin> dom (processes s)"
  shows "start_app os s name = Inr (NoCommand, s)"
proof -
  from ld obtain p where p: "map_of (settings ai) ''path'' = Some p" and sp: "str_or_none p"
    by (auto simp: loaded_def split: option.splits)
  from sp consider "p = PNone" | d where "p = PStr d"
    by (cases p) auto
  then show ?thesis
  proof cases
    case 1
    with app cmd idle p show ?thesis by (simp add: start_app_def)
  next
    case 2
    with app cmd idle p show ?thesis by (simp add: start_app_def Let_def)
  qed
qed

lemma start_app_failure_unchanged:
  assumes "start_app os s name = Inr (r, s')" and "r \<noteq> Started"
  shows "s' = s"
  using assms
  by (auto simp: start_app_def Let_def split: option.splits pyval.splits if_splits)

lemma registry_inv_start_app:
  assumes "registry_inv s" and "start_app os s name = Inr (r, s')"
  shows "registry_inv s'"
proof (cases "r = Started")
  case False
  with assms start_app_failure_unchanged [of os s name r s'] show ?thesis by simp
next
  case True
  with assms(2) have "map_of (apps s) name \<noteq> None"
    by (auto simp: start_app_def split: option.splits if_splits)
  then have mem: "name \<in> fst ` set (apps s)"
    by (simp add: map_of_eq_None_iff)
  from True assms(2) have "apps s' = apps s \<and> dom (processes s') = insert name (dom (processes s))"
    by (auto simp: start_app_def Let_def split: option.splits pyval.splits if_splits)
  with assms(1) mem show ?thesis
    by (auto simp: registry_inv_def)
qed

lemma registry_inv_stop_app:
  assumes "registry_inv s"
  shows "registry_inv (snd (stop_app s name))"
  using assms
  by (auto simp: registry_inv_def stop_app_def single_shot_def split: option.splits)


text \<open>
  C10. A name with no definition: in a registry whose live entries all belong to
  definitions, \<^verbatim>\<open>start_app\<close> takes the not-found path, returns \<^verbatim>\<open>False\<close>, and the
  definitions and the registry (the whole state) are what they were.
\<close>

theorem start_app_unknown_name:
  assumes "map_of (apps s) name = None" and "registry_inv s"
  shows "start_app os s name = Inr (NotFound, s) \<and> \<not> ok NotFound"
proof -
  from assms(1) have "name \<notin> fst ` set (apps s)"
    by (simp add: map_of_eq_None_iff)
  with assms(2) have "name \<notin> dom (processes s)"
    by (auto simp: registry_inv_def)
  with assms(1) show ?thesis
    by (simp add: start_app_unknown ok_def)
qed

theorem start_app_unknown_name_witness:
  "map_of (apps (demo_running ''ping localhost'')) ''ghost'' = None \<and>
   registry_inv (demo_running ''ping localhost'') \<and>
   start_app os_accepts (demo_running ''ping localhost'') ''ghost'' =
     Inr (NotFound, demo_running ''ping localhost'')"
proof -
  have a: "map_of (apps (demo_running ''ping localhost'')) ''ghost'' = None"
    by (simp add: demo_running_def)
  have b: "registry_inv (demo_running ''ping localhost'')"
    by (simp add: registry_inv_def demo_running_def)
  from a b start_app_unknown_name [OF a b, of os_accepts] show ?thesis
    by simp
qed

text \<open>
  C3, as the code has it. For a definition whose command is the empty string,
  \<^verbatim>\<open>start_app\<close> fails and leaves the state, hence the number of registry entries, as it
  was. The test for a live entry comes first: the failure is the no-command one when the
  name has no live entry, and the already-running one when it has.
\<close>

theorem start_app_empty_command:
  assumes "map_of (apps s) name = Some ai" and "loaded (settings ai)"
    and "map_of (settings ai) ''command'' = Some (PStr [])"
  shows "start_app os s name =
           Inr (if name \<in> dom (processes s) then AlreadyRunning else NoCommand, s) \<and>
         card (dom (processes (snd (projr (start_app os s name))))) = card (dom (processes s))"
proof (cases "name \<in> dom (processes s)")
  case True
  then show ?thesis by (simp add: start_app_live)
next
  case False
  with assms show ?thesis by (simp add: start_app_no_command)
qed

theorem start_app_empty_command_witness:
  "map_of (apps (demo_idle [])) ''demo'' = Some (demo_app []) \<and>
   loaded (settings (demo_app [])) \<and>
   map_of (settings (demo_app [])) ''command'' = Some (PStr []) \<and>
   start_app os_accepts (demo_idle []) ''demo'' = Inr (NoCommand, demo_idle [])"
  using start_app_empty_command [of "demo_idle []" "''demo''" "demo_app []" os_accepts]
  by (simp add: demo_idle_simps demo_app_lookup demo_app_loaded)

text \<open>
  The claim C3 as stated fails where the definition has a live entry (the command was
  emptied in the settings while the application was running): the failure is the
  already-running one.
\<close>

theorem start_app_empty_command_running:
  "map_of (settings (demo_app [])) ''command'' = Some (PStr []) \<and>
   start_app os_accepts (demo_running []) ''demo'' = Inr (AlreadyRunning, demo_running []) \<and>
   AlreadyRunning \<noteq> NoCommand"
  by (simp add: demo_app_lookup start_app_live demo_running_simps)

text \<open>
  C4. For a definition with a non-empty command and no live entry, the first
  \<^verbatim>\<open>start_app\<close> succeeds and the second, with no stop in between, fails as already
  running and changes nothing: the registry has gained the one entry for the name, which
  refers to the one process object created.
\<close>

theorem start_app_twice:
  assumes "map_of (apps s) name = Some ai" and "loaded (settings ai)"
    and "map_of (settings ai) ''command'' = Some (PStr c)" and "c \<noteq> []"
    and "name \<notin> dom (processes s)"
  shows "(case start_app os s name of
            Inl e \<Rightarrow> False
          | Inr (r1, s1) \<Rightarrow>
              r1 = Started \<and>
              start_app os s1 name = Inr (AlreadyRunning, s1) \<and>
              dom (processes s1) = insert name (dom (processes s)) \<and>
              processes s1 name = Some (length (heap s)) \<and>
              length (heap s1) = Suc (length (heap s)))"
  by (simp add: start_app_fresh [OF assms] start_app_live)

theorem start_app_twice_witness:
  "map_of (settings (demo_app ''ping localhost'')) ''command'' = Some (PStr ''ping localhost'') \<and>
   ''demo'' \<notin> dom (processes (demo_idle ''ping localhost'')) \<and>
   (case start_app os_accepts (demo_idle ''ping localhost'') ''demo'' of
      Inl e \<Rightarrow> False
    | Inr (r1, s1) \<Rightarrow>
        r1 = Started \<and>
        start_app os_accepts s1 ''demo'' = Inr (AlreadyRunning, s1) \<and>
        dom (processes s1) = {''demo''} \<and>
        processes s1 ''demo'' = Some 0 \<and>
        length (heap s1) = 1)"
  using start_app_twice [of "demo_idle ''ping localhost''" "''demo''"
      "demo_app ''ping localhost''" "''ping localhost''" os_accepts]
  by (auto simp: demo_idle_simps demo_app_lookup demo_app_loaded split: sum.splits)


text \<open>
  C2, as the code has it. \<^verbatim>\<open>start_app\<close> never looks at the result of the launch. For a
  definition with a non-empty command and no live entry it returns \<^verbatim>\<open>True\<close> and adds the
  entry for the name also when the operating system refuses the launch. Whatever the
  state, a call that returns either succeeds or fails on one of three paths (no command,
  already running, not found), and a failure leaves the state as it was.
\<close>

theorem start_app_launch_refused:
  "(map_of (apps s) name = Some ai \<and> loaded (settings ai) \<and>
    map_of (settings ai) ''command'' = Some (PStr c) \<and> c \<noteq> [] \<and>
    name \<notin> dom (processes s) \<and>
    os \<lparr>l_cmd = launch_of c,
        l_cwd = (case map_of (settings ai) ''path'' of Some (PStr d) \<Rightarrow> d | _ \<Rightarrow> []),
        l_env = [], l_mode = SeparateChannels\<rparr> \<noteq> Spawned \<longrightarrow>
      (case start_app os s name of
         Inl e \<Rightarrow> False
       | Inr (r, s1) \<Rightarrow>
           r = Started \<and> ok r \<and>
           processes s1 = (processes s)(name \<mapsto> length (heap s)))) \<and>
   (\<forall>n r s'. start_app os s n = Inr (r, s') \<longrightarrow>
      r = Started \<or> (s' = s \<and> (r = NoCommand \<or> r = AlreadyRunning \<or> r = NotFound)))"
proof (intro conjI impI)
  assume h: "map_of (apps s) name = Some ai \<and> loaded (settings ai) \<and>
    map_of (settings ai) ''command'' = Some (PStr c) \<and> c \<noteq> [] \<and>
    name \<notin> dom (processes s) \<and>
    os \<lparr>l_cmd = launch_of c,
        l_cwd = (case map_of (settings ai) ''path'' of Some (PStr d) \<Rightarrow> d | _ \<Rightarrow> []),
        l_env = [], l_mode = SeparateChannels\<rparr> \<noteq> Spawned"
  then have "map_of (apps s) name = Some ai" "loaded (settings ai)"
    "map_of (settings ai) ''command'' = Some (PStr c)" "c \<noteq> []"
    "name \<notin> dom (processes s)"
    by simp_all
  from start_app_fresh [OF this, of os]
  show "case start_app os s name of
          Inl e \<Rightarrow> False
        | Inr (r, s1) \<Rightarrow>
            r = Started \<and> ok r \<and>
            processes s1 = (processes s)(name \<mapsto> length (heap s))"
    by (simp add: ok_def)
next
  show "\<forall>n r s'. start_app os s n = Inr (r, s') \<longrightarrow>
          r = Started \<or> (s' = s \<and> (r = NoCommand \<or> r = AlreadyRunning \<or> r = NotFound))"
  proof (intro allI impI)
    fix n r s'
    assume st: "start_app os s n = Inr (r, s')"
    show "r = Started \<or> (s' = s \<and> (r = NoCommand \<or> r = AlreadyRunning \<or> r = NotFound))"
    proof (cases "r = Started")
      case True
      then show ?thesis by simp
    next
      case False
      with st have "s' = s" by (rule start_app_failure_unchanged)
      moreover from False have "r = NoCommand \<or> r = AlreadyRunning \<or> r = NotFound"
        by (cases r) simp_all
      ultimately show ?thesis by simp
    qed
  qed
qed

lemma launch_of_ping: "launch_of ''ping localhost'' = ProgramArgs ''ping'' [''localhost'']"
  by (simp add: launch_defs)

theorem start_app_launch_refused_witness:
  "os_refuses \<lparr>l_cmd = launch_of ''ping localhost'', l_cwd = [], l_env = [],
               l_mode = SeparateChannels\<rparr> \<noteq> Spawned \<and>
   (case start_app os_refuses (demo_idle ''ping localhost'') ''demo'' of
      Inl e \<Rightarrow> False
    | Inr (r, s1) \<Rightarrow> r = Started \<and> processes s1 = [''demo'' \<mapsto> 0]) \<and>
   start_app os_refuses (demo_idle ''ping localhost'') ''ghost'' =
     Inr (NotFound, demo_idle ''ping localhost'')"
proof -
  note t = start_app_launch_refused [of "demo_idle ''ping localhost''" "''demo''"
      "demo_app ''ping localhost''" "''ping localhost''" os_refuses]
  have r: "os_refuses \<lparr>l_cmd = launch_of ''ping localhost'', l_cwd = [], l_env = [],
               l_mode = SeparateChannels\<rparr> \<noteq> Spawned"
    by (simp add: os_refuses_def)
  from t r
  have a: "case start_app os_refuses (demo_idle ''ping localhost'') ''demo'' of
      Inl e \<Rightarrow> False
    | Inr (r, s1) \<Rightarrow> r = Started \<and> processes s1 = [''demo'' \<mapsto> 0]"
    by (auto simp: demo_idle_simps demo_app_lookup demo_app_loaded split: sum.splits)
  have g: "start_app os_refuses (demo_idle ''ping localhost'') ''ghost'' =
      Inr (NotFound, demo_idle ''ping localhost'')"
    by (simp add: start_app_unknown demo_idle_def)
  from t g have "NotFound = Started \<or>
      (demo_idle ''ping localhost'' = demo_idle ''ping localhost'' \<and>
       (NotFound = NoCommand \<or> NotFound = AlreadyRunning \<or> NotFound = NotFound))"
    by blast
  with r a g show ?thesis by simp
qed

text \<open>
  The claim C2 as stated fails: with an operating system that refuses every launch, the
  call for a definition with the command \<open>ping localhost\<close> returns success and the
  registry holds an entry for the name.
\<close>

theorem start_app_refused_still_started:
  "(\<forall>l. os_refuses l \<noteq> Spawned) \<and>
   (case start_app os_refuses (demo_idle ''ping localhost'') ''demo'' of
      Inl e \<Rightarrow> False
    | Inr (r, s1) \<Rightarrow> r = Started \<and> ok r \<and> processes s1 ''demo'' = Some 0)"
  using start_app_fresh [of "demo_idle ''ping localhost''" "''demo''"
      "demo_app ''ping localhost''" "''ping localhost''" os_refuses]
  by (simp add: demo_idle_simps demo_app_lookup demo_app_loaded os_refuses_def ok_def)

subsection \<open>Unbuffered output of Python commands\<close>

lemma launch_of_python_script:
  "launch_of ''python script.py'' = ProgramArgs ''python'' [''-u'', ''script.py'']"
  by (simp add: launch_defs)

text \<open>
  C9, evaluated on the command \<open>python script.py\<close>. The flag \<open>-u\<close> is in the arguments of
  the launch, but the environment of the launch is empty: \<^verbatim>\<open>PYTHONUNBUFFERED\<close> is put
  on the process object after \<^verbatim>\<open>start\<close> was called, as is the merged channel mode.
\<close>

theorem start_app_python_launch:
  "start_app os_accepts (demo_idle ''python script.py'') ''demo'' =
     Inr (Started,
       (demo_idle ''python script.py'')
         \<lparr>processes := [''demo'' \<mapsto> 0],
          heap := [\<lparr>working_directory = [], environment = [(''PYTHONUNBUFFERED'', ''1'')],
                    mode = MergedChannels,
                    launched = Some \<lparr>l_cmd = ProgramArgs ''python'' [''-u'', ''script.py''],
                                      l_cwd = [], l_env = [], l_mode = SeparateChannels\<rparr>,
                    pstate = QStarting, terminate_sent = False, kill_sent = False\<rparr>]\<rparr>)"
  using start_app_fresh [of "demo_idle ''python script.py''" "''demo''"
      "demo_app ''python script.py''" "''python script.py''" os_accepts]
  by (simp add: demo_idle_simps demo_app_lookup demo_app_loaded launch_of_python_script
      os_accepts_def)

text \<open>
  Two commands that the test for a Python command accepts and that are launched with no
  \<open>-u\<close>: the flag is searched as a substring of the whole command line, and the test for
  a batch file comes first.
\<close>

lemma launch_of_flag_substring:
  "is_python_script ''python my-utility.py'' \<and>
   launch_of ''python my-utility.py'' = ProgramArgs ''python'' [''my-utility.py'']"
  by (simp add: launch_defs)

lemma launch_of_python_batch:
  "is_python_script ''run_python.bat'' \<and>
   launch_of ''run_python.bat'' = ProgramArgs ''cmd.exe'' [''/c'', ''run_python.bat'']"
  by (simp add: launch_defs)


section \<open>The schedule engine: building the jobs\<close>

lemma setup_loop_other:
  "name \<notin> fst ` set as \<Longrightarrow> setup_loop small at_ok as s = (None, s') \<Longrightarrow>
     map_of (schedules s') name = map_of (schedules s) name"
proof (induction as arbitrary: s)
  case Nil
  then show ?case by simp
next
  case (Cons a as)
  obtain k ai where a: "a = (k, ai)" by (cases a)
  from Cons.prems(1) a have k: "k \<noteq> name" and rest: "name \<notin> fst ` set as" by auto
  show ?case
  proof (cases "schedule_for small at_ok k (settings ai)")
    case (Inl e)
    with Cons.prems(2) a show ?thesis by simp
  next
    case (Inr jo)
    show ?thesis
    proof (cases jo)
      case None
      with Inr Cons.prems(2) a have "setup_loop small at_ok as s = (None, s')" by simp
      with Cons.IH [OF rest] show ?thesis by simp
    next
      case (Some j)
      with Inr Cons.prems(2) a
      have "setup_loop small at_ok as
              (s\<lparr>schedules := AList.update k j (schedules s), jobs := jobs s @ [j]\<rparr>) = (None, s')"
        by simp
      from Cons.IH [OF rest this] k show ?thesis
        by (simp add: update_conv')
    qed
  qed
qed

lemma setup_loop_job:
  "distinct (map fst as) \<Longrightarrow> map_of as name = Some ai \<Longrightarrow>
     setup_loop small at_ok as s = (None, s') \<Longrightarrow>
     schedule_for small at_ok name (settings ai) = Inr (Some j) \<Longrightarrow>
     map_of (schedules s') name = Some j"
proof (induction as arbitrary: s)
  case Nil
  then show ?case by simp
next
  case (Cons a as)
  obtain k ai' where a: "a = (k, ai')" by (cases a)
  from Cons.prems(1) a have dk: "k \<notin> fst ` set as" and dist: "distinct (map fst as)" by auto
  show ?case
  proof (cases "k = name")
    case True
    with Cons.prems(2) a have "ai' = ai" by simp
    with Cons.prems(3,4) a True
    have run: "setup_loop small at_ok as
                 (s\<lparr>schedules := AList.update name j (schedules s), jobs := jobs s @ [j]\<rparr>)
               = (None, s')"
      by simp
    from dk True have "name \<notin> fst ` set as" by simp
    from setup_loop_other [OF this run] show ?thesis
      by (simp add: update_conv')
  next
    case False
    with Cons.prems(2) a have look: "map_of as name = Some ai" by simp
    show ?thesis
    proof (cases "schedule_for small at_ok k (settings ai')")
      case (Inl e)
      with Cons.prems(3) a show ?thesis by simp
    next
      case (Inr jo)
      show ?thesis
      proof (cases jo)
        case None
        with Inr Cons.prems(3) a have "setup_loop small at_ok as s = (None, s')" by simp
        from Cons.IH [OF dist look this Cons.prems(4)] show ?thesis .
      next
        case (Some j')
        with Inr Cons.prems(3) a
        have "setup_loop small at_ok as
                (s\<lparr>schedules := AList.update k j' (schedules s), jobs := jobs s @ [j']\<rparr>)
              = (None, s')"
          by simp
        from Cons.IH [OF dist look this Cons.prems(4)] show ?thesis .
      qed
    qed
  qed
qed

lemma setup_schedules_job:
  assumes "distinct (map fst (apps s))" and "map_of (apps s) name = Some ai"
    and "setup_schedules small at_ok s = (None, s')"
    and "schedule_for small at_ok name (settings ai) = Inr (Some j)"
  shows "map_of (schedules s') name = Some j"
  using assms setup_loop_job [of "apps s" name ai small at_ok "s\<lparr>jobs := [], schedules := []\<rparr>" s' j]
  by (simp add: setup_schedules_def)

lemma schedule_call_interval:
  assumes "truthy (get_default st ''schedule_enabled'' (PBool False))"
    and "get_default st ''schedule_type'' (PStr ''Interval'') = PStr ''Interval''"
    and "get_default st ''interval_value'' (PInt 60) = PInt n"
    and "get_default st ''interval_unit'' (PStr ''Minutes'') = PStr u"
    and "u = ''Seconds'' \<and> tu = Seconds \<or> u = ''Minutes'' \<and> tu = Minutes \<or>
         u = ''Hours'' \<and> tu = Hours"
  shows "schedule_call name st =
           Inr (Some (Every (PInt (if tu = Seconds then max 1 n else n)) tu
                        DoScheduledAppRun name))"
  using assms
  by (auto simp: schedule_call_def Let_def max_def)

lemma schedule_for_monthly:
  assumes "truthy (get_default st ''schedule_enabled'' (PBool False))"
    and "get_default st ''schedule_type'' (PStr ''Interval'') = PStr ''Monthly''"
    and "get_default st ''schedule_time'' (PStr ''12:00'') = PStr t"
    and "at_ok Days t"
  shows "schedule_for small at_ok name st =
           Inr (Some \<lparr>interval = 1, unit = Days, at_time = Some t,
                       job_func = DoCheckMonthlySchedule, job_app = name\<rparr>)"
  using assms
  by (simp add: schedule_for_def schedule_call_def perform_def every_at_do_def Let_def)

lemma demo_scheduled_simps:
  "apps (demo_scheduled st) =
     [(''demo'', \<lparr>ai_name = ''demo'', ai_path = ''apps/demo'',
         settings_path = ''apps/demo/settings.xml'', settings = st\<rparr>)]"
  "schedules (demo_scheduled st) = []" "jobs (demo_scheduled st) = []"
  "timers (demo_scheduled st) = []" "sink (demo_scheduled st) = []"
  "processes (demo_scheduled st) = Map.empty" "heap (demo_scheduled st) = []"
  "last_schedule_time (demo_scheduled st) = None"
  by (simp_all add: demo_scheduled_def)

lemma every_minutes_0_lookup:
  "get_default every_minutes_0 ''schedule_enabled'' (PBool False) = PBool True"
  "get_default every_minutes_0 ''schedule_type'' (PStr ''Interval'') = PStr ''Interval''"
  "get_default every_minutes_0 ''interval_value'' (PInt 60) = PInt 0"
  "get_default every_minutes_0 ''interval_unit'' (PStr ''Minutes'') = PStr ''Minutes''"
  by (simp_all add: get_default_def every_minutes_0_def default_settings_def)

lemma every_seconds_0_lookup:
  "get_default every_seconds_0 ''schedule_enabled'' (PBool False) = PBool True"
  "get_default every_seconds_0 ''schedule_type'' (PStr ''Interval'') = PStr ''Interval''"
  "get_default every_seconds_0 ''interval_value'' (PInt 60) = PInt 0"
  "get_default every_seconds_0 ''interval_unit'' (PStr ''Minutes'') = PStr ''Seconds''"
  by (simp_all add: get_default_def every_seconds_0_def every_minutes_0_def default_settings_def)

lemma monthly_0900_lookup:
  "get_default monthly_0900 ''schedule_enabled'' (PBool False) = PBool True"
  "get_default monthly_0900 ''schedule_type'' (PStr ''Interval'') = PStr ''Monthly''"
  "get_default monthly_0900 ''schedule_time'' (PStr ''12:00'') = PStr ''09:00''"
  by (simp_all add: get_default_def monthly_0900_def default_settings_def)

lemma setup_schedules_demo:
  "schedule_for small at_ok ''demo'' st = Inr (Some j) \<Longrightarrow>
     setup_schedules small at_ok (demo_scheduled st) =
       (None, (demo_scheduled st)\<lparr>jobs := [j], schedules := [(''demo'', j)]\<rparr>)"
  by (simp add: setup_schedules_def demo_scheduled_def)

text \<open>
  C5, evaluated on an enabled interval schedule of 0 minutes. The value is not raised to 1:
  the call made on the module is \<^verbatim>\<open>every(0).minutes\<close>. The same schedule in seconds is
  raised to 1. The branches for minutes and hours have no comparison with 1 at all, so
  for any integer \<open>n\<close> the value passed is \<open>n\<close> (lemma \<open>schedule_call_interval\<close>).
\<close>

theorem schedule_call_minutes_unclamped:
  "schedule_call ''demo'' every_minutes_0 =
     Inr (Some (Every (PInt 0) Minutes DoScheduledAppRun ''demo'')) \<and>
   schedule_call ''demo'' every_seconds_0 =
     Inr (Some (Every (PInt 1) Seconds DoScheduledAppRun ''demo''))"
proof -
  have "schedule_call ''demo'' every_minutes_0 =
      Inr (Some (Every (PInt 0) Minutes DoScheduledAppRun ''demo''))"
    using schedule_call_interval [of every_minutes_0 0 "''Minutes''" Minutes "''demo''"]
    by (simp add: every_minutes_0_lookup)
  moreover have "schedule_call ''demo'' every_seconds_0 =
      Inr (Some (Every (PInt 1) Seconds DoScheduledAppRun ''demo''))"
    using schedule_call_interval [of every_seconds_0 0 "''Seconds''" Seconds "''demo''"]
    by (simp add: every_seconds_0_lookup)
  ultimately show ?thesis by simp
qed

text \<open>
  What becomes of the call depends on the module: where it makes a job for an interval
  below 1, the job has the interval 0; where it does not, \<^verbatim>\<open>setup_schedules\<close> does not
  come to its end.
\<close>

lemma every_do_small:
  "every_do small (PInt 0) Minutes f name =
     (case small 0 Minutes of
        None \<Rightarrow> Inr \<lparr>interval = 0, unit = Minutes, at_time = None, job_func = f, job_app = name\<rparr>
      | Some a \<Rightarrow> Inl a)"
  by (simp add: every_do_def)

section \<open>The schedule engine: firing\<close>

lemma scheduled_app_run_posts:
  "scheduled_app_run pe now s name =
     (True, pe (s\<lparr>last_schedule_time := Some (hms now),
                  timers := timers s @ [(0, ScheduledAppRunMainThread name)]\<rparr>))"
  by (simp add: scheduled_app_run_def single_shot_def)

text \<open>
  C6. The job \<^verbatim>\<open>setup_schedules\<close> builds for an enabled monthly schedule is a daily job at
  the configured time whose function is the gate \<^verbatim>\<open>check_monthly_schedule\<close>. When the
  job runs on a day of the month other than 1, nothing happens; when it runs on day 1, the
  scheduled run is triggered once: the time is recorded and one event for the name is
  posted before the event loop is given the hand.
\<close>

theorem monthly_daily_gate:
  assumes "distinct (map fst (apps s))" and "map_of (apps s) name = Some ai"
    and "truthy (get_default (settings ai) ''schedule_enabled'' (PBool False))"
    and "get_default (settings ai) ''schedule_type'' (PStr ''Interval'') = PStr ''Monthly''"
    and "get_default (settings ai) ''schedule_time'' (PStr ''12:00'') = PStr t"
    and "at_ok Days t"
    and "setup_schedules small at_ok s = (None, s')"
  shows "\<exists>j. map_of (schedules s') name = Some j \<and>
           j = \<lparr>interval = 1, unit = Days, at_time = Some t,
                job_func = DoCheckMonthlySchedule, job_app = name\<rparr> \<and>
           (\<forall>pe now m. day now \<noteq> 1 \<longrightarrow> run_job pe now j m = m) \<and>
           (\<forall>pe now m. day now = 1 \<longrightarrow>
              run_job pe now j m =
                pe (m\<lparr>last_schedule_time := Some (hms now),
                      timers := timers m @ [(0, ScheduledAppRunMainThread name)]\<rparr>))"
proof -
  let ?j = "\<lparr>interval = 1, unit = Days, at_time = Some t,
              job_func = DoCheckMonthlySchedule, job_app = name\<rparr>"
  have "map_of (schedules s') name = Some ?j"
    using assms(1,2,7)
      schedule_for_monthly [of "settings ai" t at_ok small name, OF assms(3-6)]
    by (rule setup_schedules_job)
  moreover have "\<forall>pe now m. day now \<noteq> 1 \<longrightarrow> run_job pe now ?j m = m"
    by (simp add: run_job_def check_monthly_schedule_def)
  moreover have "\<forall>pe now m. day now = 1 \<longrightarrow>
      run_job pe now ?j m =
        pe (m\<lparr>last_schedule_time := Some (hms now),
              timers := timers m @ [(0, ScheduledAppRunMainThread name)]\<rparr>)"
    by (simp add: run_job_def check_monthly_schedule_def scheduled_app_run_posts)
  ultimately show ?thesis by blast
qed


theorem monthly_daily_gate_witness:
  "\<exists>j. map_of (schedules (snd (setup_schedules demo_small demo_at_ok (demo_scheduled monthly_0900))))
          ''demo'' = Some j \<and>
       j = \<lparr>interval = 1, unit = Days, at_time = Some ''09:00'',
            job_func = DoCheckMonthlySchedule, job_app = ''demo''\<rparr> \<and>
       run_job id \<lparr>day = 15, hms = ''09:00:00''\<rparr> j (demo_scheduled monthly_0900) =
         demo_scheduled monthly_0900 \<and>
       run_job id \<lparr>day = 1, hms = ''09:00:00''\<rparr> j (demo_scheduled monthly_0900) =
         (demo_scheduled monthly_0900)
           \<lparr>last_schedule_time := Some ''09:00:00'',
            timers := [(0, ScheduledAppRunMainThread ''demo'')]\<rparr>"
proof -
  let ?j = "\<lparr>interval = 1, unit = Days, at_time = Some ''09:00'',
              job_func = DoCheckMonthlySchedule, job_app = ''demo''\<rparr>"
  have ok: "demo_at_ok Days ''09:00''"
    by (simp add: demo_at_ok_def)
  have "schedule_for demo_small demo_at_ok ''demo'' monthly_0900 = Inr (Some ?j)"
    using schedule_for_monthly [of monthly_0900 "''09:00''" demo_at_ok demo_small "''demo''"] ok
    by (simp add: monthly_0900_lookup)
  then have run: "setup_schedules demo_small demo_at_ok (demo_scheduled monthly_0900) =
      (None, (demo_scheduled monthly_0900)\<lparr>jobs := [?j], schedules := [(''demo'', ?j)]\<rparr>)"
    by (rule setup_schedules_demo)
  from monthly_daily_gate [of "demo_scheduled monthly_0900" "''demo''" _ "''09:00''"
      demo_at_ok, OF _ _ _ _ _ ok run]
  obtain j where j: "j = ?j"
    and d15: "\<forall>pe now m. day now \<noteq> 1 \<longrightarrow> run_job pe now j m = m"
    and d1: "\<forall>pe now m. day now = 1 \<longrightarrow>
       run_job pe now j m =
         pe (m\<lparr>last_schedule_time := Some (hms now),
               timers := timers m @ [(0, ScheduledAppRunMainThread ''demo'')]\<rparr>)"
    by (auto simp: demo_scheduled_simps monthly_0900_lookup)
  have a: "run_job id \<lparr>day = 15, hms = ''09:00:00''\<rparr> ?j (demo_scheduled monthly_0900) =
      demo_scheduled monthly_0900"
    using d15 [rule_format, of "\<lparr>day = 15, hms = ''09:00:00''\<rparr>" id "demo_scheduled monthly_0900"] j
    by simp
  have b: "run_job id \<lparr>day = 1, hms = ''09:00:00''\<rparr> ?j (demo_scheduled monthly_0900) =
      (demo_scheduled monthly_0900)
        \<lparr>last_schedule_time := Some ''09:00:00'',
         timers := [(0, ScheduledAppRunMainThread ''demo'')]\<rparr>"
    using d1 [rule_format, of "\<lparr>day = 1, hms = ''09:00:00''\<rparr>" id "demo_scheduled monthly_0900"] j
    by (simp add: demo_scheduled_simps)
  from run a b show ?thesis by simp
qed

lemma start_and_show_app_started:
  "start_app os s name = Inr (Started, s1) \<Longrightarrow>
     start_and_show_app os s name =
       Inr (s1\<lparr>timers := timers s1 @ [(0, NotifyAppStarted name False)]\<rparr>)"
  by (simp add: start_and_show_app_def ok_def single_shot_def)

lemma start_and_show_app_failed:
  assumes "start_app os s name = Inr (r, s1)" and "r \<noteq> Started"
  shows "start_and_show_app os s name = Inr s"
proof -
  from assms have "s1 = s" by (rule start_app_failure_unchanged)
  with assms show ?thesis by (simp add: start_and_show_app_def ok_def)
qed

lemma scheduled_app_run_main_thread_running:
  assumes "processes (pe (update_terminal_for_scheduled_run s name (last_schedule_time s))) name
             = Some h"
  shows "scheduled_app_run_main_thread pe os s name =
           (let s2 = pe (update_terminal_for_scheduled_run s name (last_schedule_time s))
            in Inr (s2\<lparr>heap := (heap s2)[h := terminate (heap s2 ! h)],
                      timers := timers s2 @ [(500, CheckProcessTerminated name h),
                                              (1000, StartAndShowApp name)],
                      processes := (processes s2)(name := None)\<rparr>))"
  using assms
  by (simp add: scheduled_app_run_main_thread_def Let_def is_app_running_def dom_def
      stop_app_running single_shot_def)

lemma scheduled_app_run_main_thread_idle:
  assumes "processes (pe (update_terminal_for_scheduled_run s name (last_schedule_time s))) name
             = None"
  shows "scheduled_app_run_main_thread pe os s name =
           start_and_show_app os
             (pe (update_terminal_for_scheduled_run s name (last_schedule_time s))) name"
  using assms
  by (simp add: scheduled_app_run_main_thread_def Let_def is_app_running_def dom_def)


text \<open>
  C7, as the code has it. When the posted event of a scheduled run is processed, the
  terminal hook is called and the event loop is given the hand; then, if the application
  is running, it is stopped (its entry leaves the registry, the termination check is set
  at 500 ms) and the start is only set on a timer of 1000 ms, with no process created yet;
  if it is not running, the start is made at once. The start, in either path, posts the
  notification of the sink with the name and the focus hint \<^verbatim>\<open>False\<close> when
  \<^verbatim>\<open>start_app\<close> succeeds, and posts nothing when it fails.
\<close>

theorem scheduled_run_processed:
  "(is_app_running (pe (update_terminal_for_scheduled_run s name (last_schedule_time s))) name \<longrightarrow>
      (\<exists>h. processes (pe (update_terminal_for_scheduled_run s name (last_schedule_time s))) name
              = Some h \<and>
           scheduled_app_run_main_thread pe os s name =
             (let s2 = pe (update_terminal_for_scheduled_run s name (last_schedule_time s))
              in Inr (s2\<lparr>heap := (heap s2)[h := terminate (heap s2 ! h)],
                        timers := timers s2 @ [(500, CheckProcessTerminated name h),
                                                (1000, StartAndShowApp name)],
                        processes := (processes s2)(name := None)\<rparr>)))) \<and>
   (\<not> is_app_running (pe (update_terminal_for_scheduled_run s name (last_schedule_time s))) name \<longrightarrow>
      scheduled_app_run_main_thread pe os s name =
        start_and_show_app os
          (pe (update_terminal_for_scheduled_run s name (last_schedule_time s))) name) \<and>
   (\<forall>s0. run_task pe os now (StartAndShowApp name) s0 = start_and_show_app os s0 name) \<and>
   (\<forall>s0 s1. start_app os s0 name = Inr (Started, s1) \<longrightarrow>
      start_and_show_app os s0 name =
        Inr (s1\<lparr>timers := timers s1 @ [(0, NotifyAppStarted name False)]\<rparr>)) \<and>
   (\<forall>s0 r s1. start_app os s0 name = Inr (r, s1) \<and> r \<noteq> Started \<longrightarrow>
      start_and_show_app os s0 name = Inr s0) \<and>
   (\<forall>s0. run_task pe os now (NotifyAppStarted name False) s0 =
      Inr (s0\<lparr>sink := sink s0 @ [AppStarted name False]\<rparr>))"
proof (intro conjI allI impI)
  assume "is_app_running (pe (update_terminal_for_scheduled_run s name (last_schedule_time s))) name"
  then obtain h
    where h: "processes (pe (update_terminal_for_scheduled_run s name (last_schedule_time s))) name
                = Some h"
    by (auto simp: is_app_running_def)
  from h scheduled_app_run_main_thread_running [of pe s name h os, OF h]
  show "\<exists>h. processes (pe (update_terminal_for_scheduled_run s name (last_schedule_time s))) name
              = Some h \<and>
           scheduled_app_run_main_thread pe os s name =
             (let s2 = pe (update_terminal_for_scheduled_run s name (last_schedule_time s))
              in Inr (s2\<lparr>heap := (heap s2)[h := terminate (heap s2 ! h)],
                        timers := timers s2 @ [(500, CheckProcessTerminated name h),
                                                (1000, StartAndShowApp name)],
                        processes := (processes s2)(name := None)\<rparr>))"
    by blast
next
  assume "\<not> is_app_running (pe (update_terminal_for_scheduled_run s name (last_schedule_time s))) name"
  then have "processes (pe (update_terminal_for_scheduled_run s name (last_schedule_time s))) name
               = None"
    by (auto simp: is_app_running_def)
  then show "scheduled_app_run_main_thread pe os s name =
      start_and_show_app os
        (pe (update_terminal_for_scheduled_run s name (last_schedule_time s))) name"
    using scheduled_app_run_main_thread_idle [of pe s name os] by simp
next
  fix s0
  show "run_task pe os now (StartAndShowApp name) s0 = start_and_show_app os s0 name"
    by (simp add: run_task_def)
next
  fix s0 s1
  assume "start_app os s0 name = Inr (Started, s1)"
  then show "start_and_show_app os s0 name =
      Inr (s1\<lparr>timers := timers s1 @ [(0, NotifyAppStarted name False)]\<rparr>)"
    by (rule start_and_show_app_started)
next
  fix s0 r s1
  assume "start_app os s0 name = Inr (r, s1) \<and> r \<noteq> Started"
  then show "start_and_show_app os s0 name = Inr s0"
    using start_and_show_app_failed [of os s0 name r s1] by simp
next
  fix s0
  show "run_task pe os now (NotifyAppStarted name False) s0 =
      Inr (s0\<lparr>sink := sink s0 @ [AppStarted name False]\<rparr>)"
    by (simp add: run_task_def notify_app_started_def)
qed

lemma update_terminal_simps:
  "processes (update_terminal_for_scheduled_run s name ts) = processes s"
  "heap (update_terminal_for_scheduled_run s name ts) = heap s"
  "timers (update_terminal_for_scheduled_run s name ts) = timers s"
  "apps (update_terminal_for_scheduled_run s name ts) = apps s"
  "sink (update_terminal_for_scheduled_run s name ts) =
     sink s @ [TerminalUpdatedForScheduledRun name ts]"
  by (simp_all add: update_terminal_for_scheduled_run_def)


lemma demo_idle_updated:
  "start_app os (update_terminal_for_scheduled_run (demo_idle c) ''demo'' None) ''demo'' =
     (if c = [] then
        Inr (NoCommand, update_terminal_for_scheduled_run (demo_idle c) ''demo'' None)
      else
        Inr (Started,
          (update_terminal_for_scheduled_run (demo_idle c) ''demo'' None)
            \<lparr>processes := [''demo'' \<mapsto> 0],
             heap := [(let l = \<lparr>l_cmd = launch_of c, l_cwd = [], l_env = [],
                                 l_mode = SeparateChannels\<rparr>
                       in \<lparr>working_directory = l_cwd l,
                           environment = [(''PYTHONUNBUFFERED'', ''1'')],
                           mode = MergedChannels, launched = Some l,
                           pstate = (if os l = FailedAtOnce then QNotRunning else QStarting),
                           terminate_sent = False, kill_sent = False\<rparr>)]\<rparr>))"
proof (cases "c = []")
  case True
  then show ?thesis
    using start_app_no_command [of "update_terminal_for_scheduled_run (demo_idle c) ''demo'' None"
        "''demo''" "demo_app c" os]
    by (simp add: update_terminal_simps demo_idle_simps demo_app_lookup demo_app_loaded)
next
  case False
  then show ?thesis
    using start_app_fresh [of "update_terminal_for_scheduled_run (demo_idle c) ''demo'' None"
        "''demo''" "demo_app c" c os]
    by (simp add: update_terminal_simps demo_idle_simps demo_app_lookup demo_app_loaded)
qed

theorem scheduled_run_processed_witness:
  "is_app_running
     (id (update_terminal_for_scheduled_run (demo_running ''ping localhost'') ''demo'' None))
     ''demo'' \<and>
   scheduled_app_run_main_thread id os_accepts (demo_running ''ping localhost'') ''demo'' =
     Inr ((demo_running ''ping localhost'')
            \<lparr>sink := [TerminalUpdatedForScheduledRun ''demo'' None],
             heap := [QProcess\<lparr>pstate := QRunning, terminate_sent := True\<rparr>],
             timers := [(500, CheckProcessTerminated ''demo'' 0), (1000, StartAndShowApp ''demo'')],
             processes := Map.empty\<rparr>) \<and>
   \<not> is_app_running
     (id (update_terminal_for_scheduled_run (demo_idle ''ping localhost'') ''demo'' None))
     ''demo'' \<and>
   (case scheduled_app_run_main_thread id os_accepts (demo_idle ''ping localhost'') ''demo'' of
      Inl e \<Rightarrow> False
    | Inr s' \<Rightarrow>
        processes s' ''demo'' = Some 0 \<and> timers s' = [(0, NotifyAppStarted ''demo'' False)]) \<and>
   run_task id os_accepts \<lparr>day = 1, hms = ''09:00:00''\<rparr> (NotifyAppStarted ''demo'' False)
     (demo_idle ''ping localhost'') =
     Inr ((demo_idle ''ping localhost'')\<lparr>sink := [AppStarted ''demo'' False]\<rparr>)"
proof -
  let ?c = "''ping localhost''"
  let ?now = "\<lparr>day = 1, hms = ''09:00:00''\<rparr>"
  note run = scheduled_run_processed [of id "demo_running ?c" "''demo''" os_accepts ?now]
  note idle = scheduled_run_processed [of id "demo_idle ?c" "''demo''" os_accepts ?now]
  have r1: "is_app_running
      (id (update_terminal_for_scheduled_run (demo_running ?c) ''demo'' None)) ''demo''"
    by (simp add: is_app_running_def update_terminal_simps demo_running_simps)
  have last: "last_schedule_time (demo_running ?c) = None" "last_schedule_time (demo_idle ?c) = None"
    by (simp_all add: demo_running_def demo_idle_def)
  from run r1 last
  have r2: "scheduled_app_run_main_thread id os_accepts (demo_running ?c) ''demo'' =
     Inr ((demo_running ?c)
            \<lparr>sink := [TerminalUpdatedForScheduledRun ''demo'' None],
             heap := [QProcess\<lparr>pstate := QRunning, terminate_sent := True\<rparr>],
             timers := [(500, CheckProcessTerminated ''demo'' 0), (1000, StartAndShowApp ''demo'')],
             processes := Map.empty\<rparr>)"
    by (simp add: update_terminal_for_scheduled_run_def demo_running_def terminate_def
        QProcess_def Let_def)
  have i1: "\<not> is_app_running
      (id (update_terminal_for_scheduled_run (demo_idle ?c) ''demo'' None)) ''demo''"
    by (simp add: is_app_running_def update_terminal_simps demo_idle_simps)
  from idle i1 last
  have i2: "scheduled_app_run_main_thread id os_accepts (demo_idle ?c) ''demo'' =
      start_and_show_app os_accepts
        (update_terminal_for_scheduled_run (demo_idle ?c) ''demo'' None) ''demo''"
    by simp
  have i3: "case start_and_show_app os_accepts
        (update_terminal_for_scheduled_run (demo_idle ?c) ''demo'' None) ''demo'' of
      Inl e \<Rightarrow> False
    | Inr s' \<Rightarrow>
        processes s' ''demo'' = Some 0 \<and> timers s' = [(0, NotifyAppStarted ''demo'' False)]"
  proof -
    have "timers (demo_idle ?c) = []" by (simp add: demo_idle_def)
    then show ?thesis
      by (simp add: start_and_show_app_def demo_idle_updated ok_def single_shot_def
          update_terminal_simps)
  qed
  from idle have n: "run_task id os_accepts ?now (NotifyAppStarted ''demo'' False) (demo_idle ?c) =
      Inr ((demo_idle ?c)\<lparr>sink := sink (demo_idle ?c) @ [AppStarted ''demo'' False]\<rparr>)"
    by blast
  have "sink (demo_idle ?c) = []" by (simp add: demo_idle_def)
  with n r1 r2 i1 i2 i3 show ?thesis by simp
qed

text \<open>
  The claim C7 as stated fails where the start fails: a scheduled run of a definition with
  an empty command calls the terminal hook and posts nothing, so the sink never gets the
  notification with the focus hint.
\<close>

theorem scheduled_run_without_notification:
  "scheduled_app_run_main_thread id os_accepts (demo_idle []) ''demo'' =
     Inr ((demo_idle [])\<lparr>sink := [TerminalUpdatedForScheduledRun ''demo'' None]\<rparr>) \<and>
   timers ((demo_idle [])\<lparr>sink := [TerminalUpdatedForScheduledRun ''demo'' None]\<rparr>) = []"
proof -
  have idle: "processes (id (update_terminal_for_scheduled_run (demo_idle [])
      ''demo'' (last_schedule_time (demo_idle [])))) ''demo'' = None"
    by (simp add: update_terminal_simps demo_idle_simps)
  have last: "last_schedule_time (demo_idle []) = None"
    by (simp add: demo_idle_def)
  have "start_and_show_app os_accepts
      (update_terminal_for_scheduled_run (demo_idle []) ''demo'' None) ''demo'' =
      Inr (update_terminal_for_scheduled_run (demo_idle []) ''demo'' None)"
    by (simp add: start_and_show_app_def demo_idle_updated ok_def)
  with scheduled_app_run_main_thread_idle [of id "demo_idle []" "''demo''" os_accepts, OF idle] last
  show ?thesis
    by (simp add: update_terminal_for_scheduled_run_def demo_idle_def)
qed


section \<open>Settings files: the round trip\<close>

lemma digit_cases:
  assumes "d < (10::nat)"
  obtains "d = 0" | "d = 1" | "d = 2" | "d = 3" | "d = 4" | "d = 5" | "d = 6" | "d = 7"
    | "d = 8" | "d = 9"
proof -
  from assms
  have "d = 0 \<or> d = 1 \<or> d = 2 \<or> d = 3 \<or> d = 4 \<or> d = 5 \<or> d = 6 \<or> d = 7 \<or> d = 8 \<or> d = 9"
    by arith
  with that show thesis by blast
qed

lemma digit_val_digit_char: "d < 10 \<Longrightarrow> digit_val (digit_char d) = Some d"
  by (erule digit_cases) (simp_all add: digit_val_def digit_char_def)

lemma digit_char_plain:
  "d < 10 \<Longrightarrow> \<not> is_space (digit_char d) \<and> digit_char d \<noteq> CHR ''-'' \<and> digit_char d \<noteq> CHR ''+''"
  by (erule digit_cases) (simp_all add: is_space_def digit_char_def)

lemma digits_of_digits: "\<forall>c\<in>set (digits_of n). \<exists>d<10. c = digit_char d"
proof (induction n rule: digits_of.induct)
  case (1 n)
  show ?case
  proof (cases "n < 10")
    case True
    then show ?thesis by (subst digits_of.simps) auto
  next
    case False
    have "\<exists>d<10. digit_char (n mod 10) = digit_char d"
      by (rule exI [of _ "n mod 10"]) simp
    with False 1 show ?thesis
      by (subst digits_of.simps) auto
  qed
qed

lemma digits_of_nonempty: "digits_of n \<noteq> []"
  by (subst digits_of.simps) simp

lemma parse_digits_all:
  "\<forall>c\<in>set ds. \<exists>d<10. c = digit_char d \<Longrightarrow>
     parse_digits acc ds = Some (foldl (\<lambda>a c. 10 * a + the (digit_val c)) acc ds)"
proof (induction ds arbitrary: acc)
  case Nil
  then show ?case by simp
next
  case (Cons c ds)
  from Cons.prems obtain d where d: "d < 10" "c = digit_char d" by auto
  then have "digit_val c = Some d" by (simp add: digit_val_digit_char)
  with Cons show ?case by simp
qed

lemma digits_of_value: "foldl (\<lambda>a c. 10 * a + the (digit_val c)) 0 (digits_of n) = n"
proof (induction n rule: digits_of.induct)
  case (1 n)
  show ?case
  proof (cases "n < 10")
    case True
    then show ?thesis
      by (subst digits_of.simps) (simp add: digit_val_digit_char)
  next
    case False
    have "n mod 10 < 10" by simp
    then have "digit_val (digit_char (n mod 10)) = Some (n mod 10)"
      by (rule digit_val_digit_char)
    with False 1 show ?thesis
      by (subst digits_of.simps) simp
  qed
qed

lemma parse_nat_digits_of: "parse_nat (digits_of n) = Some n"
proof -
  obtain c cs where cs: "digits_of n = c # cs"
    using digits_of_nonempty [of n] by (cases "digits_of n") auto
  with digits_of_digits [of n] obtain d where d: "d < 10" "c = digit_char d"
    and rest: "\<forall>c\<in>set cs. \<exists>d<10. c = digit_char d"
    by auto
  from d have v: "digit_val c = Some d" by (simp add: digit_val_digit_char)
  have "foldl (\<lambda>a c. 10 * a + the (digit_val c)) 0 (c # cs) = n"
    using digits_of_value [of n] cs by simp
  with v have "foldl (\<lambda>a c. 10 * a + the (digit_val c)) d cs = n" by simp
  with cs v rest show ?thesis
    by (simp add: parse_nat_def parse_digits_all)
qed

lemma strip_plain:
  assumes "s \<noteq> []" and "\<not> is_space (hd s)" and "\<not> is_space (last s)"
  shows "strip s = s"
proof -
  from assms(1,3) have "dropWhile is_space (rev s) = rev s"
    by (cases "rev s") (auto simp: last_rev hd_rev dest: arg_cong [where f = hd])
  moreover from assms(1,2) have "dropWhile is_space s = s"
    by (cases s) auto
  ultimately show ?thesis by (simp add: strip_def)
qed

lemma digits_of_ends:
  "\<not> is_space (hd (digits_of n))" "\<not> is_space (last (digits_of n))"
  "hd (digits_of n) \<noteq> CHR ''-''" "hd (digits_of n) \<noteq> CHR ''+''"
proof -
  have "hd (digits_of n) \<in> set (digits_of n)" "last (digits_of n) \<in> set (digits_of n)"
    using digits_of_nonempty [of n] by simp_all
  with digits_of_digits [of n]
  obtain d e where "d < 10" "hd (digits_of n) = digit_char d"
    "e < 10" "last (digits_of n) = digit_char e"
    by blast
  then show "\<not> is_space (hd (digits_of n))" "\<not> is_space (last (digits_of n))"
    "hd (digits_of n) \<noteq> CHR ''-''" "hd (digits_of n) \<noteq> CHR ''+''"
    using digit_char_plain by simp_all
qed

lemma int_of_str_str_of_int: "int_of_str (str_of_int i) = Some i"
proof (cases "i < 0")
  case True
  let ?ds = "digits_of (nat (- i))"
  have "strip (CHR ''-'' # ?ds) = CHR ''-'' # ?ds"
    using digits_of_nonempty [of "nat (- i)"] digits_of_ends(2) [of "nat (- i)"]
    by (intro strip_plain) (simp_all add: is_space_def)
  with True show ?thesis
    by (simp add: int_of_str_def str_of_int_def parse_nat_digits_of)
next
  case False
  let ?ds = "digits_of (nat i)"
  obtain c cs where cs: "?ds = c # cs"
    using digits_of_nonempty [of "nat i"] by (cases ?ds) auto
  have "strip ?ds = ?ds"
    using digits_of_nonempty digits_of_ends(1,2) by (rule strip_plain)
  moreover from cs digits_of_ends(3,4) [of "nat i"] have "c \<noteq> CHR ''-''" "c \<noteq> CHR ''+''"
    by simp_all
  moreover have "parse_nat (c # cs) = Some (nat i)"
    using parse_nat_digits_of [of "nat i"] cs by simp
  ultimately show ?thesis
    using False cs by (simp add: int_of_str_def str_of_int_def)
qed


lemma str_of_int_nonempty: "str_of_int i \<noteq> []"
  by (simp add: str_of_int_def digits_of_nonempty)

lemma read_back_simps:
  "read_back (PStr t) = (if t = [] then PNone else PStr t)"
  "read_back (PBool b) = PStr (if b then ''True'' else ''False'')"
  "read_back (PInt n) = PStr (str_of_int n)"
  "read_back PNone = PStr ''None''"
  by (simp_all add: read_back_def written_def str_of_int_nonempty)

lemma to_string_read_back: "to_string (Some (read_back (PStr t))) = PStr t"
  by (simp add: read_back_simps to_string_def)

lemma to_interval_read_back: "to_interval (Some (read_back (PInt n))) = PInt n"
  by (simp add: read_back_simps to_interval_def int_of_str_str_of_int)

lemma to_bool_read_back: "to_bool (Some (read_back (PBool b))) = PBool b"
  by (simp add: read_back_simps to_bool_def lower_def lower_char_def upper_chars_def
      lower_chars_def)

lemma load_elems_written:
  assumes "distinct (map fst xs)" and "''parameters'' \<notin> fst ` set xs"
  shows "\<exists>st'. load_elems (map written xs) st = (True, st') \<and>
           map_of st' = map_of st ++ map_of (map (\<lambda>kv. (fst kv, read_back (snd kv))) xs)"
  using assms
proof (induction xs arbitrary: st)
  case Nil
  then show ?case by simp
next
  case (Cons kv xs)
  let ?k = "fst kv"
  let ?rb = "read_back (snd kv)"
  let ?M = "map_of (map (\<lambda>kv. (fst kv, read_back (snd kv))) xs)"
  from Cons.prems have k: "?k \<noteq> ''parameters''" and dist: "distinct (map fst xs)"
    and rest: "''parameters'' \<notin> fst ` set xs" and fresh: "?k \<notin> fst ` set xs"
    by auto
  have step: "load_elems (map written (kv # xs)) st =
      load_elems (map written xs) (AList.update ?k ?rb st)"
    using k by (simp add: written_def read_back_def)
  from Cons.IH [OF dist rest, of "AList.update ?k ?rb st"]
  obtain st' where run: "load_elems (map written xs) (AList.update ?k ?rb st) = (True, st')"
    and m: "map_of st' = map_of (AList.update ?k ?rb st) ++ ?M"
    by blast
  from fresh have none: "?M ?k = None"
    by (simp add: map_of_eq_None_iff image_image)
  have tgt: "map_of (map (\<lambda>kv. (fst kv, read_back (snd kv))) (kv # xs)) = ?M(?k \<mapsto> ?rb)"
    by simp
  have eq: "map_of (AList.update ?k ?rb st) ++ ?M = map_of st ++ ?M(?k \<mapsto> ?rb)"
    using none by (auto simp: update_conv' map_add_def fun_eq_iff split: option.splits)
  have "load_elems (map written (kv # xs)) st = (True, st')"
    using step run by (simp only:)
  moreover
  have "map_of st' = map_of st ++ map_of (map (\<lambda>kv. (fst kv, read_back (snd kv))) (kv # xs))"
    using m eq tgt by (simp only:)
  ultimately show ?case by blast
qed

lemma map_of_read_back:
  "map_of (map (\<lambda>kv. (fst kv, read_back (snd kv))) xs) k = map_option read_back (map_of xs k)"
  by (induction xs) auto

lemma fold_convert_key:
  "distinct ks \<Longrightarrow>
     map_of (fold (convert_key f) ks st) k =
       (if k \<in> set ks then Some (f (map_of st k)) else map_of st k)"
proof (induction ks arbitrary: st)
  case Nil
  then show ?case by simp
next
  case (Cons a ks)
  then show ?case
    by (auto simp: convert_key_def update_conv')
qed

lemma map_of_convert:
  "map_of (convert st) k =
     (if k \<in> set string_keys then Some (to_string (map_of st k))
      else if k = ''interval_value'' then Some (to_interval (map_of st k))
      else if k \<in> set bool_keys then Some (to_bool (map_of st k))
      else map_of st k)"
proof -
  have d1: "distinct string_keys" by (simp add: string_keys_def)
  have d2: "distinct bool_keys" by (simp add: bool_keys_def)
  have n1: "''interval_value'' \<notin> set string_keys" by (simp add: string_keys_def)
  have n2: "''interval_value'' \<notin> set bool_keys" by (simp add: bool_keys_def)
  have n3: "set string_keys \<inter> set bool_keys = {}" by (simp add: string_keys_def bool_keys_def)
  show ?thesis
    using n1 n2 n3
    by (auto simp: convert_def fold_convert_key [OF d1] fold_convert_key [OF d2]
        convert_key_def update_conv')
qed



lemma known_keys_simps:
  "k \<in> set known_keys \<longleftrightarrow> k \<in> set string_keys \<or> k = ''interval_value'' \<or> k \<in> set bool_keys"
  by (auto simp: known_keys_def)

lemma parameters_unknown: "''parameters'' \<notin> set known_keys"
  by (simp add: known_keys_def string_keys_def bool_keys_def)

lemma default_settings_keys: "map fst default_settings =
    [''path'', ''command'', ''url'', ''autorun'', ''schedule_enabled'', ''schedule_type'',
     ''interval_value'', ''interval_unit'', ''schedule_time'', ''display_name'', ''short_name'',
     ''group'']"
  by (simp add: default_settings_def)

lemma default_keys_known: "set (map fst default_settings) = set known_keys"
  by code_simp

lemma default_strings:
  "list_all (\<lambda>k. case map_of default_settings k of Some (PStr t) \<Rightarrow> True | _ \<Rightarrow> False) string_keys"
  by code_simp

lemma default_bools:
  "list_all (\<lambda>k. case map_of default_settings k of Some (PBool t) \<Rightarrow> True | _ \<Rightarrow> False) bool_keys"
  by code_simp

lemma default_interval: "map_of default_settings ''interval_value'' = Some (PInt 60)"
  by (simp add: default_settings_def)


lemma default_settings_unknown: "k \<notin> set known_keys \<Longrightarrow> map_of default_settings k = None"
  using default_keys_known by (simp add: map_of_eq_None_iff)

lemma default_settings_known:
  "k \<in> set string_keys \<Longrightarrow> \<exists>t. map_of default_settings k = Some (PStr t)"
  "k \<in> set bool_keys \<Longrightarrow> \<exists>b. map_of default_settings k = Some (PBool b)"
proof -
  assume "k \<in> set string_keys"
  with default_strings
  have "case map_of default_settings k of Some (PStr t) \<Rightarrow> True | _ \<Rightarrow> False"
    by (simp add: list_all_iff)
  then show "\<exists>t. map_of default_settings k = Some (PStr t)"
    by (simp split: option.splits pyval.splits)
next
  assume "k \<in> set bool_keys"
  with default_bools
  have "case map_of default_settings k of Some (PBool t) \<Rightarrow> True | _ \<Rightarrow> False"
    by (simp add: list_all_iff)
  then show "\<exists>b. map_of default_settings k = Some (PBool b)"
    by (simp split: option.splits pyval.splits)
qed

lemma to_string_typed: "\<exists>t. to_string x = PStr t"
  by (simp add: to_string_def split: option.splits pyval.splits)

lemma to_interval_typed: "\<exists>n. to_interval x = PInt n"
  by (simp add: to_interval_def split: option.splits pyval.splits)

lemma to_bool_typed: "\<exists>b. to_bool x = PBool b"
  by (auto simp: to_bool_def split: option.splits pyval.splits)

lemma keys_disjoint:
  "''interval_value'' \<notin> set string_keys" "''interval_value'' \<notin> set bool_keys"
  "k \<in> set bool_keys \<Longrightarrow> k \<notin> set string_keys"
  by (auto simp: string_keys_def bool_keys_def)


lemma load_settings_known:
  assumes "load_completes f"
  shows "(k \<in> set string_keys \<longrightarrow> (\<exists>t. map_of (load_settings f) k = Some (PStr t))) \<and>
         (\<exists>n. map_of (load_settings f) ''interval_value'' = Some (PInt n)) \<and>
         (k \<in> set bool_keys \<longrightarrow> (\<exists>b. map_of (load_settings f) k = Some (PBool b)))"
proof (cases f)
  case Missing
  then show ?thesis
    using default_settings_known [of k] by (simp add: load_settings_def default_interval)
next
  case Malformed
  then show ?thesis
    using default_settings_known [of k] by (simp add: load_settings_def default_interval)
next
  case (Document es)
  with assms obtain st where "load_elems es default_settings = (True, st)"
    by (cases "load_elems es default_settings") (auto simp: load_completes_def)
  with Document have l: "load_settings f = convert st"
    by (simp add: load_settings_def)
  show ?thesis
    using to_string_typed [of "map_of st k"] to_interval_typed [of "map_of st ''interval_value''"]
      to_bool_typed [of "map_of st k"] keys_disjoint(1,2) keys_disjoint(3) [of k]
    by (simp add: l map_of_convert)
qed


lemma distinct_load_params:
  "distinct (map fst st) \<Longrightarrow> distinct (map fst (snd (load_params ps st)))"
proof (induction ps arbitrary: st)
  case Nil
  then show ?case by simp
next
  case (Cons p ps)
  obtain n v where p: "p = (n, v)" by (cases p)
  with Cons show ?case
    by (cases n) (auto simp: distinct_update)
qed

lemma distinct_load_elems:
  "distinct (map fst st) \<Longrightarrow> distinct (map fst (snd (load_elems es st)))"
proof (induction es arbitrary: st)
  case Nil
  then show ?case by simp
next
  case (Cons e es)
  show ?case
  proof (cases "elem_tag e = ''parameters''")
    case True
    obtain b st' where r: "load_params (elem_children e) st = (b, st')"
      by (cases "load_params (elem_children e) st")
    with distinct_load_params [OF Cons.prems, of "elem_children e"]
    have "distinct (map fst st')" by simp
    with True r Cons.IH [of st'] show ?thesis
      by (cases b) simp_all
  next
    case False
    with Cons.IH [of "AList.update (elem_tag e) (opt_str (elem_text e)) st"] Cons.prems
    show ?thesis by (simp add: distinct_update)
  qed
qed

lemma distinct_fold_convert_key:
  "distinct (map fst st) \<Longrightarrow> distinct (map fst (fold (convert_key f) ks st))"
  by (induction ks arbitrary: st) (simp_all add: convert_key_def distinct_update)

lemma distinct_convert: "distinct (map fst st) \<Longrightarrow> distinct (map fst (convert st))"
  by (simp add: convert_def distinct_fold_convert_key convert_key_def distinct_update)

lemma distinct_load_settings: "distinct (map fst (load_settings f))"
proof -
  have d: "distinct (map fst default_settings)"
    by (simp add: default_settings_keys)
  show ?thesis
  proof (cases f)
    case Missing
    with d show ?thesis by (simp add: load_settings_def)
  next
    case Malformed
    with d show ?thesis by (simp add: load_settings_def)
  next
    case (Document es)
    obtain b st where r: "load_elems es default_settings = (b, st)"
      by (cases "load_elems es default_settings")
    with distinct_load_elems [OF d, of es] have "distinct (map fst st)" by simp
    with Document r show ?thesis
      by (cases b) (simp_all add: load_settings_def distinct_convert)
  qed
qed

lemma reload_written:
  assumes dist: "distinct (map fst xs)"
    and kept: "list_all custom_kept xs"
    and strs: "\<And>k. k \<in> set string_keys \<Longrightarrow> \<exists>t. map_of xs k = Some (PStr t)"
    and ival: "\<exists>n. map_of xs ''interval_value'' = Some (PInt n)"
    and bools: "\<And>k. k \<in> set bool_keys \<Longrightarrow> \<exists>b. map_of xs k = Some (PBool b)"
  shows "map_of (load_settings (Document (map written xs))) = map_of xs"
proof -
  let ?M = "map_of (map (\<lambda>kv. (fst kv, read_back (snd kv))) xs)"
  have nopar: "''parameters'' \<notin> fst ` set xs"
  proof
    assume "''parameters'' \<in> fst ` set xs"
    then obtain kv where "kv \<in> set xs" "fst kv = ''parameters''" by auto
    with kept show False
      by (auto simp: list_all_iff custom_kept_def parameters_unknown)
  qed
  from load_elems_written [OF dist nopar, of default_settings]
  obtain R where run: "load_elems (map written xs) default_settings = (True, R)"
    and R: "map_of R = map_of default_settings ++ ?M"
    by blast
  from run have l: "load_settings (Document (map written xs)) = convert R"
    by (simp add: load_settings_def)
  have look: "\<And>k v. map_of xs k = Some v \<Longrightarrow> map_of R k = Some (read_back v)"
    by (simp add: R map_of_read_back map_add_def)
  show ?thesis
  proof
    fix k
    show "map_of (load_settings (Document (map written xs))) k = map_of xs k"
    proof -
      consider (s) "k \<in> set string_keys" | (i) "k = ''interval_value''"
        | (b) "k \<in> set bool_keys" | (c) "k \<notin> set known_keys"
        by (auto simp: known_keys_simps)
      then show ?thesis
      proof cases
        case s
        with strs obtain t where t: "map_of xs k = Some (PStr t)" by blast
        with s look [OF t] show ?thesis
          by (simp add: l map_of_convert to_string_read_back)
      next
        case i
        with ival obtain n where n: "map_of xs k = Some (PInt n)" by blast
        with i look [OF n] show ?thesis
          by (simp add: l map_of_convert keys_disjoint to_interval_read_back)
      next
        case b
        with bools obtain v where v: "map_of xs k = Some (PBool v)" by blast
        with b look [OF v] keys_disjoint(3) [OF b] keys_disjoint(2) show ?thesis
          by (auto simp: l map_of_convert to_bool_read_back)
      next
        case c
        then have unk: "k \<notin> set string_keys" "k \<noteq> ''interval_value''" "k \<notin> set bool_keys"
          by (simp_all add: known_keys_simps)
        then have conv: "map_of (convert R) k = map_of R k"
          by (simp add: map_of_convert)
        show ?thesis
        proof (cases "map_of xs k")
          case None
          with c show ?thesis
            by (simp add: l conv R map_add_def map_of_read_back default_settings_unknown)
        next
          case (Some v)
          then have "(k, v) \<in> set xs" by (rule map_of_SomeD)
          with kept have "custom_kept (k, v)" by (simp add: list_all_iff)
          with c obtain t where "v = PStr t" "t \<noteq> []"
            by (cases v) (simp_all add: custom_kept_def)
          with Some look [OF Some] show ?thesis
            by (simp add: l conv read_back_simps)
        qed
      qed
    qed
  qed
qed


lemmas convert_defs = convert_def convert_key_def string_keys_def bool_keys_def to_string_def
  to_bool_def to_interval_def lower_def lower_char_def upper_chars_def lower_chars_def

lemma load_notes_raw:
  "load_settings notes_file =
     convert (AList.update ''notes'' PNone
       (AList.update ''command'' (PStr ''ping localhost'') default_settings))"
  by (simp add: load_settings_def notes_file_def)

lemma load_notes_file:
  "load_settings notes_file =
     [(''path'', PStr []), (''command'', PStr ''ping localhost''),
      (''url'', PStr []), (''autorun'', PBool False),
      (''schedule_enabled'', PBool False),
      (''schedule_type'', PStr ''Interval''), (''interval_value'', PInt 60),
      (''interval_unit'', PStr ''Minutes''),
      (''schedule_time'', PStr ''12:00''), (''display_name'', PStr []),
      (''short_name'', PStr []), (''group'', PStr []), (''notes'', PNone)]"
  unfolding load_notes_raw by (simp add: default_settings_def convert_defs)

lemma load_token_raw:
  "load_settings token_file =
     convert (AList.update ''token'' (PStr ''abc'')
       (AList.update ''autorun'' (PStr ''TRUE'')
         (AList.update ''interval_value'' (PStr ''-15'')
           (AList.update ''command'' (PStr ''ping localhost'') default_settings))))"
  by (simp add: load_settings_def token_file_def lower_def lower_char_def upper_chars_def
      lower_chars_def)

lemma int_of_str_m15: "int_of_str ''-15'' = Some (- 15)"
  by (simp add: int_of_str_def strip_def is_space_def parse_nat_def digit_val_def)

lemma load_token_file:
  "load_settings token_file =
     [(''path'', PStr []), (''command'', PStr ''ping localhost''),
      (''url'', PStr []), (''autorun'', PBool True),
      (''schedule_enabled'', PBool False),
      (''schedule_type'', PStr ''Interval''), (''interval_value'', PInt (- 15)),
      (''interval_unit'', PStr ''Minutes''),
      (''schedule_time'', PStr ''12:00''), (''display_name'', PStr []),
      (''short_name'', PStr []), (''group'', PStr []),
      (''token'', PStr ''abc'')]"
  unfolding load_token_raw by (simp add: default_settings_def convert_defs int_of_str_m15)


lemma save_settings_known:
  assumes "map_of (apps s) name = Some ai" and "xml (elems_of st) = Written f"
  shows "save_settings xml s fs name st =
           (True, s\<lparr>apps := AList.update name (ai\<lparr>settings := st\<rparr>) (apps s)\<rparr>,
            fs(settings_path ai := f))"
  using assms by (simp add: save_settings_def)

lemma xml_faithful_written: "xml_faithful (elems_of st) = Written (Document (map written st))"
  by (simp add: xml_faithful_def elems_of_def written_def comp_def)

lemma reload_custom:
  assumes dist: "distinct (map fst xs)" and nopar: "''parameters'' \<notin> fst ` set xs"
    and unk: "k \<notin> set known_keys" and v: "map_of xs k = Some v"
  shows "map_of (load_settings (Document (map written xs))) k = Some (read_back v)"
proof -
  from load_elems_written [OF dist nopar, of default_settings]
  obtain R where run: "load_elems (map written xs) default_settings = (True, R)"
    and R: "map_of R = map_of default_settings ++
              map_of (map (\<lambda>kv. (fst kv, read_back (snd kv))) xs)"
    by blast
  from run have l: "load_settings (Document (map written xs)) = convert R"
    by (simp add: load_settings_def)
  from unk have "k \<notin> set string_keys" "k \<noteq> ''interval_value''" "k \<notin> set bool_keys"
    by (simp_all add: known_keys_simps)
  then have "map_of (convert R) k = map_of R k"
    by (simp add: map_of_convert)
  with v show ?thesis
    by (simp add: l R map_of_read_back map_add_def)
qed

text \<open>
  C8, as the code has it. Take a settings file on which the loops of \<^verbatim>\<open>load_settings\<close>
  come to their end and whose fields outside the twelve keys all hold a non-empty string
  and are not named \<open>parameters\<close>, and let the libraries read the document saved for the
  loaded settings back with every key and every text as it was written. Then
  \<^verbatim>\<open>save_settings\<close> succeeds on the loaded settings, and loading the saved file gives
  the same dictionary.
\<close>

theorem save_load_round_trip:
  assumes "map_of (apps s) name = Some ai"
    and "load_completes (fs (settings_path ai))"
    and "list_all custom_kept (load_settings (fs (settings_path ai)))"
    and "xml (elems_of (load_settings (fs (settings_path ai)))) =
           Written (Document (map written (load_settings (fs (settings_path ai)))))"
  shows "(case save_settings xml s fs name (load_settings (fs (settings_path ai))) of
            (saved, s', fs') \<Rightarrow>
              saved \<and>
              map_of (load_settings (fs' (settings_path ai))) =
                map_of (load_settings (fs (settings_path ai))))"
proof -
  let ?S1 = "load_settings (fs (settings_path ai))"
  have "map_of (load_settings (Document (map written ?S1))) = map_of ?S1"
    using distinct_load_settings assms(3)
  proof (rule reload_written)
    fix k
    show "k \<in> set string_keys \<Longrightarrow> \<exists>t. map_of ?S1 k = Some (PStr t)"
      using load_settings_known [OF assms(2), of k] by simp
    show "k \<in> set bool_keys \<Longrightarrow> \<exists>b. map_of ?S1 k = Some (PBool b)"
      using load_settings_known [OF assms(2), of k] by simp
  next
    show "\<exists>n. map_of ?S1 ''interval_value'' = Some (PInt n)"
      using load_settings_known [OF assms(2)] by simp
  qed
  then show ?thesis
    by (simp add: save_settings_known [of s name ai xml ?S1 "Document (map written ?S1)" fs,
          OF assms(1) assms(4)])
qed

lemma kept_token: "list_all custom_kept (load_settings token_file)"
  unfolding load_token_file
  by (simp add: custom_kept_def known_keys_def string_keys_def bool_keys_def)

lemma demo_path: "settings_path (demo_app c) = ''apps/demo/settings.xml''"
  by (simp add: demo_app_def)

theorem save_load_round_trip_witness:
  "load_completes (demo_files token_file ''apps/demo/settings.xml'') \<and>
   list_all custom_kept (load_settings (demo_files token_file ''apps/demo/settings.xml'')) \<and>
   xml_faithful (elems_of (load_settings (demo_files token_file ''apps/demo/settings.xml''))) =
     Written (Document (map written
       (load_settings (demo_files token_file ''apps/demo/settings.xml'')))) \<and>
   (case save_settings xml_faithful (demo_idle []) (demo_files token_file) ''demo''
           (load_settings (demo_files token_file ''apps/demo/settings.xml'')) of
      (saved, s', fs') \<Rightarrow>
        saved \<and>
        map_of (load_settings (fs' ''apps/demo/settings.xml'')) =
          map_of (load_settings (demo_files token_file ''apps/demo/settings.xml'')))"
proof -
  let ?p = "''apps/demo/settings.xml''"
  have f: "demo_files token_file ?p = token_file" by (simp add: demo_files_def)
  have a: "map_of (apps (demo_idle [])) ''demo'' = Some (demo_app [])"
    by (simp add: demo_idle_simps)
  have "load_completes token_file"
    by (simp add: load_completes_def token_file_def lower_def lower_char_def upper_chars_def
        lower_chars_def default_settings_def)
  then have c: "load_completes (demo_files token_file (settings_path (demo_app [])))"
    by (simp add: demo_path f)
  have k: "list_all custom_kept (load_settings (demo_files token_file (settings_path (demo_app []))))"
    by (simp add: demo_path f kept_token)
  have x: "xml_faithful (elems_of (load_settings (demo_files token_file (settings_path (demo_app []))))) =
      Written (Document (map written
        (load_settings (demo_files token_file (settings_path (demo_app []))))))"
    by (rule xml_faithful_written)
  from save_load_round_trip [of "demo_idle []" "''demo''" "demo_app []" "demo_files token_file"
      xml_faithful, OF a c k x] c k x show ?thesis
    by (simp add: demo_path)
qed

text \<open>
  The claim C8 as stated fails for a field outside the twelve keys that has no text: it is
  loaded as \<^verbatim>\<open>None\<close>, saved as the text \<open>None\<close>, and loaded again as the string \<open>None\<close>.
\<close>

theorem round_trip_none_becomes_string:
  "load_completes (demo_files notes_file ''apps/demo/settings.xml'') \<and>
   fst (save_settings xml_faithful (demo_idle []) (demo_files notes_file) ''demo''
          (load_settings (demo_files notes_file ''apps/demo/settings.xml''))) \<and>
   map_of (load_settings (demo_files notes_file ''apps/demo/settings.xml'')) ''notes'' =
     Some PNone \<and>
   map_of (load_settings
       (snd (snd (save_settings xml_faithful (demo_idle []) (demo_files notes_file) ''demo''
          (load_settings (demo_files notes_file ''apps/demo/settings.xml''))))
        ''apps/demo/settings.xml'')) ''notes'' =
     Some (PStr ''None'')"
proof -
  let ?p = "''apps/demo/settings.xml''"
  have f: "demo_files notes_file ?p = notes_file" by (simp add: demo_files_def)
  have a: "map_of (apps (demo_idle [])) ''demo'' = Some (demo_app [])"
    by (simp add: demo_idle_simps)
  have c: "load_completes notes_file"
    by (simp add: load_completes_def notes_file_def default_settings_def)
  have sv: "save_settings xml_faithful (demo_idle []) (demo_files notes_file) ''demo''
        (load_settings notes_file) =
      (True,
       (demo_idle [])\<lparr>apps := AList.update ''demo''
          ((demo_app [])\<lparr>settings := load_settings notes_file\<rparr>) (apps (demo_idle []))\<rparr>,
       (demo_files notes_file)(?p := Document (map written (load_settings notes_file))))"
    by (simp add: save_settings_known [of "demo_idle []" "''demo''" "demo_app []" xml_faithful
          "load_settings notes_file" "Document (map written (load_settings notes_file))"
          "demo_files notes_file", OF a xml_faithful_written] demo_path)
  have n1: "map_of (load_settings notes_file) ''notes'' = Some PNone"
    unfolding load_notes_file by simp
  have nopar: "''parameters'' \<notin> fst ` set (load_settings notes_file)"
    unfolding load_notes_file by simp
  have unk: "''notes'' \<notin> set known_keys"
    by (simp add: known_keys_def string_keys_def bool_keys_def)
  have "map_of (load_settings (Document (map written (load_settings notes_file)))) ''notes'' =
      Some (PStr ''None'')"
    using reload_custom [OF distinct_load_settings nopar unk n1]
    by (simp add: read_back_simps)
  with c sv n1 show ?thesis
    by (simp add: f)
qed

lemma loaded_update: "loaded st \<Longrightarrow> str_or_none v \<Longrightarrow> loaded (AList.update k v st)"
  by (auto simp: loaded_def update_conv' split: option.splits)

lemma str_or_none_opt_str: "str_or_none (opt_str x)"
  by (cases x) simp_all

lemma loaded_load_params: "loaded st \<Longrightarrow> loaded (snd (load_params ps st))"
proof (induction ps arbitrary: st)
  case Nil
  then show ?case by simp
next
  case (Cons p ps)
  obtain n v where p: "p = (n, v)" by (cases p)
  with Cons show ?case
    by (cases n) (auto simp: loaded_update str_or_none_opt_str)
qed

lemma loaded_load_elems: "loaded st \<Longrightarrow> loaded (snd (load_elems es st))"
proof (induction es arbitrary: st)
  case Nil
  then show ?case by simp
next
  case (Cons e es)
  show ?case
  proof (cases "elem_tag e = ''parameters''")
    case True
    obtain b st' where r: "load_params (elem_children e) st = (b, st')"
      by (cases "load_params (elem_children e) st")
    with loaded_load_params [OF Cons.prems, of "elem_children e"] have "loaded st'" by simp
    with True r Cons.IH [of st'] show ?thesis
      by (cases b) simp_all
  next
    case False
    with Cons.IH [of "AList.update (elem_tag e) (opt_str (elem_text e)) st"] Cons.prems
    show ?thesis by (simp add: loaded_update str_or_none_opt_str)
  qed
qed

lemma loaded_default: "loaded default_settings"
  by (simp add: loaded_def default_settings_def)

lemma loaded_convert: "loaded (convert st)"
proof -
  have "''path'' \<in> set string_keys" "''command'' \<in> set string_keys"
    by (simp_all add: string_keys_def)
  then show ?thesis
    using to_string_typed [of "map_of st ''path''"] to_string_typed [of "map_of st ''command''"]
    by (auto simp: loaded_def map_of_convert)
qed

text \<open>
  Whatever the file, the dictionary \<^verbatim>\<open>load_settings\<close> returns has the keys \<open>path\<close> and
  \<open>command\<close> with a string or \<^verbatim>\<open>None\<close>: it is a loaded definition in the sense of
  \<open>loaded\<close>.
\<close>

lemma load_settings_loaded: "loaded (load_settings f)"
proof (cases f)
  case Missing
  then show ?thesis by (simp add: load_settings_def loaded_default)
next
  case Malformed
  then show ?thesis by (simp add: load_settings_def loaded_default)
next
  case (Document es)
  obtain b st where r: "load_elems es default_settings = (b, st)"
    by (cases "load_elems es default_settings")
  with loaded_load_elems [OF loaded_default, of es] have "loaded st" by simp
  with Document r show ?thesis
    by (cases b) (simp_all add: load_settings_def loaded_convert)
qed


end
